theory Spec2Isabelle
  imports Complex_Main
begin

section \<open>Numbers and strings of the source language\<close>

text \<open>
  The simulators are TypeScript. Every number the compilers and controllers handle is
  an integer (node ids, millisecond clocks read from \<open>Date.now()\<close>, offsets, cursor
  positions) far below \<open>2^53\<close>, where the arithmetic of doubles on integers and on
  halves of integers is exact: integers are modelled as \<^typ>\<open>int\<close>, and the two
  quotients the clock compilers form (\<open>RTT / 2\<close> and \<open>suma / n\<close>) as \<^typ>\<open>real\<close>.
  \<open>suma / n\<close> is not always a double, but for the sizes at hand (at most 13 clocks,
  times below \<open>2^42\<close>) the nearest double lies on the same side of every half-integer
  as the exact quotient, so \<open>Math.round\<close> returns the same integer for both.
  \<open>Math.round\<close> rounds to the nearest integer with ties towards plus infinity, which
  is \<^const>\<open>round\<close> of HOL (\<open>round x = \<lfloor>x + 1/2\<rfloor>\<close>).

  Strings are byte lists; a letter outside ASCII is written as its UTF-8 bytes.
\<close>

fun digitos :: "nat \<Rightarrow> string" where
  "digitos n =
     (if n < 10 then [char_of (48 + n)]
      else digitos (n div 10) @ [char_of (48 + n mod 10)])"

declare digitos.simps [simp del]

text \<open>
  What a template literal \<open>${n}\<close> prints for an integer \<open>n\<close> (of absolute value
  below \<open>10^21\<close>): its decimal digits, after a minus sign when it is negative.
\<close>

definition numStr :: "int \<Rightarrow> string" where
  "numStr i = (if i < 0 then ''-'' @ digitos (nat (- i)) else digitos (nat i))"

text \<open>\<open>ids.join(", ")\<close>\<close>

fun joinIds :: "int list \<Rightarrow> string" where
  "joinIds [] = []"
| "joinIds [x] = numStr x"
| "joinIds (x # y # ys) = numStr x @ '', '' @ joinIds (y # ys)"

definition a_acute :: string where "a_acute = [CHR 0xC3, CHR 0xA1]"
definition i_acute :: string where "i_acute = [CHR 0xC3, CHR 0xAD]"
definition O_acute :: string where "O_acute = [CHR 0xC3, CHR 0x93]"
definition o_acute :: string where "o_acute = [CHR 0xC3, CHR 0xB3]"

section \<open>Leader election: data model\<close>

record NodoSim =
  nid :: int
  failed :: bool
  highlighted :: bool

datatype MessageKind = election | ok | ring1 | ring2

record SimMensaje =
  fromId :: int
  toId :: int
  tipo :: MessageKind
  payload :: "int list option"

text \<open>
  An optional field is an \<open>option\<close>: \<open>None\<close> is the absent (\<open>undefined\<close>) field.
  \<open>leaderId?: number | null\<close> has two layers: \<open>Some None\<close> is an explicit \<open>null\<close>.
\<close>

record SimAction =
  descripcion :: string
  highlightIds :: "int list option"
  leaderId :: "int option option"
  mensaje :: "SimMensaje option"

definition accion :: "string \<Rightarrow> SimAction" where
  "accion d = \<lparr>descripcion = d, highlightIds = None, leaderId = None, mensaje = None\<rparr>"

definition vivosDe :: "NodoSim list \<Rightarrow> NodoSim list" where
  "vivosDe nodos = filter (\<lambda>n. \<not> failed n) nodos"

section \<open>The Bully compiler\<close>

definition bullyPar :: "NodoSim \<Rightarrow> NodoSim \<Rightarrow> SimAction list" where
  "bullyPar iniciador s =
     [\<lparr>descripcion = ''Nodo '' @ numStr (nid iniciador) @ '' env'' @ i_acute
          @ ''a mensaje de ELECCI'' @ O_acute @ ''N al nodo '' @ numStr (nid s) @ ''.'',
       highlightIds = Some [nid iniciador, nid s],
       leaderId = None,
       mensaje = Some \<lparr>fromId = nid iniciador, toId = nid s, tipo = election,
                        payload = None\<rparr>\<rparr>,
      \<lparr>descripcion = ''Nodo '' @ numStr (nid s) @ '' responde OK al nodo ''
          @ numStr (nid iniciador) @ ''.'',
       highlightIds = Some [nid s, nid iniciador],
       leaderId = None,
       mensaje = Some \<lparr>fromId = nid s, toId = nid iniciador, tipo = ok,
                        payload = None\<rparr>\<rparr>]"

definition simularBully :: "NodoSim list \<Rightarrow> int \<Rightarrow> SimAction list" where
  "simularBully nodos iniciadorId =
     (let vivos = vivosDe nodos in
      case find (\<lambda>n. nid n = iniciadorId) vivos of
        None \<Rightarrow>
          [accion (''El nodo iniciador '' @ numStr iniciadorId @ '' est'' @ a_acute
                   @ '' ca'' @ i_acute @ ''do. No puede iniciar.'')]
      | Some iniciador \<Rightarrow>
          (let superiores = filter (\<lambda>n. nid n > nid iniciador) vivos;
               nuevoLider = foldl (\<lambda>mx n. if nid n > nid mx then n else mx) iniciador vivos;
               paso1 = \<lparr>descripcion = ''Nodo '' @ numStr (nid iniciador)
                          @ '' detecta la ca'' @ i_acute @ ''da del l'' @ i_acute
                          @ ''der e inicia la elecci'' @ o_acute @ ''n (Bully).'',
                        highlightIds = Some [nid iniciador],
                        leaderId = None, mensaje = None\<rparr>
           in if length superiores = 0 then
                [paso1,
                 \<lparr>descripcion = ''Nodo '' @ numStr (nid iniciador)
                    @ '' no encuentra nodos con ID superior. Se convierte en l''
                    @ i_acute @ ''der.'',
                  highlightIds = Some [nid iniciador],
                  leaderId = Some (Some (nid iniciador)), mensaje = None\<rparr>]
              else
                paso1 # concat (map (bullyPar iniciador) superiores)
                @ [\<lparr>descripcion = ''El nodo con mayor ID activo es ''
                      @ numStr (nid nuevoLider) @ ''. Se convierte en el nuevo l''
                      @ i_acute @ ''der.'',
                    highlightIds = Some [nid nuevoLider],
                    leaderId = Some (Some (nid nuevoLider)), mensaje = None\<rparr>]))"

section \<open>The Ring compiler\<close>

text \<open>
  \<open>xs.indexOf(x)\<close> for an element \<open>x\<close> that \<open>xs.find\<close> returned by a test on the id:
  the first position whose node passes the test (the position of that very object).
\<close>

definition indiceDe :: "('a \<Rightarrow> bool) \<Rightarrow> 'a list \<Rightarrow> nat" where
  "indiceDe P xs = length (takeWhile (\<lambda>x. \<not> P x) xs)"

text \<open>The action one turn of the collection loop pushes.\<close>

definition colectaAccion :: "NodoSim \<Rightarrow> NodoSim \<Rightarrow> int list \<Rightarrow> SimAction" where
  "colectaAccion desde hacia idsEnMensaje =
     \<lparr>descripcion = ''Mensaje de ELECCI'' @ O_acute @ ''N pasa de nodo ''
        @ numStr (nid desde) @ '' a nodo '' @ numStr (nid hacia) @ '' con IDs [''
        @ joinIds idsEnMensaje @ ''].'',
      highlightIds = Some [nid desde, nid hacia],
      leaderId = None,
      mensaje = Some \<lparr>fromId = nid desde, toId = nid hacia, tipo = ring1,
                       payload = Some idsEnMensaje\<rparr>\<rparr>"

text \<open>
  One turn of the collection loop (\<open>for (let i = 1; i <= anillo.length; i++)\<close>), on the
  pair (\<open>acciones\<close>, \<open>idsEnMensaje\<close>). The payload is the accumulator before the
  receiver joins it.
\<close>

definition ringColecta ::
  "NodoSim list \<Rightarrow> SimAction list \<times> int list \<Rightarrow> nat \<Rightarrow> SimAction list \<times> int list" where
  "ringColecta anillo st i =
     (let acciones = fst st; idsEnMensaje = snd st;
          desde = anillo ! (i - 1);
          hacia = anillo ! (i mod length anillo)
      in (acciones @ [colectaAccion desde hacia idsEnMensaje],
          if nid hacia \<in> set idsEnMensaje then idsEnMensaje
          else idsEnMensaje @ [nid hacia]))"

definition ringAnuncio :: "NodoSim list \<Rightarrow> nat \<Rightarrow> int \<Rightarrow> nat \<Rightarrow> SimAction" where
  "ringAnuncio anillo idxLider idLeader i =
     (let desde = anillo ! ((idxLider + i - 1) mod length anillo);
          hacia = anillo ! ((idxLider + i) mod length anillo)
      in \<lparr>descripcion = ''Mensaje de ANUNCIO del l'' @ i_acute @ ''der (''
             @ numStr idLeader @ '') pasa de nodo '' @ numStr (nid desde) @ '' a nodo ''
             @ numStr (nid hacia) @ ''.'',
          highlightIds = Some [nid desde, nid hacia],
          leaderId = None,
          mensaje = Some \<lparr>fromId = nid desde, toId = nid hacia, tipo = ring2,
                           payload = None\<rparr>\<rparr>)"

text \<open>The ring: the alive nodes rotated to start at the initiator.\<close>

definition anilloDe :: "NodoSim list \<Rightarrow> int \<Rightarrow> NodoSim list" where
  "anilloDe vivos iniciadorId =
     (let idxInicio = indiceDe (\<lambda>n. nid n = iniciadorId) vivos
      in drop idxInicio vivos @ take idxInicio vivos)"

text \<open>
  Phase 1 on its own: the state of the loop when it ends, from the \<open>election started\<close>
  action and the accumulator \<open>[iniciador.id]\<close>.
\<close>

definition ringFase1 :: "NodoSim list \<Rightarrow> NodoSim \<Rightarrow> SimAction list \<times> int list" where
  "ringFase1 anillo iniciador =
     foldl (ringColecta anillo)
       ([\<lparr>descripcion = ''Nodo '' @ numStr (nid iniciador) @ '' inicia la elecci''
             @ o_acute @ ''n (Ring). Mensaje inicial contiene ['' @ joinIds [nid iniciador]
             @ ''].'',
          highlightIds = Some [nid iniciador], leaderId = None, mensaje = None\<rparr>],
        [nid iniciador])
       [1..<Suc (length anillo)]"

text \<open>
  \<open>Math.max(...idsEnMensaje)\<close>: the accumulator is never empty here (it starts as
  \<open>[iniciador.id]\<close> and only grows).
\<close>

definition simularRingCompleto :: "NodoSim list \<Rightarrow> int \<Rightarrow> SimAction list" where
  "simularRingCompleto nodos iniciadorId =
     (let vivos = vivosDe nodos in
      if length vivos = 0 then [accion ''No hay nodos activos en el anillo.'']
      else case find (\<lambda>n. nid n = iniciadorId) vivos of
        None \<Rightarrow>
          [accion (''El nodo iniciador '' @ numStr iniciadorId @ '' est'' @ a_acute
                   @ '' ca'' @ i_acute @ ''do. No puede iniciar.'')]
      | Some iniciador \<Rightarrow>
          (let anillo = anilloDe vivos iniciadorId;
               fase1 = ringFase1 anillo iniciador;
               idsEnMensaje = snd fase1;
               idLeader = Max (set idsEnMensaje);
               nodoLider = (case find (\<lambda>n. nid n = idLeader) anillo of
                              Some l \<Rightarrow> l | None \<Rightarrow> iniciador);
               idxLider = indiceDe (\<lambda>n. nid n = nid nodoLider) anillo
           in fst fase1
              @ [\<lparr>descripcion = ''El mensaje regresa al nodo iniciador ''
                    @ numStr (nid iniciador) @ '' con la lista completa [''
                    @ joinIds idsEnMensaje @ '']. L'' @ i_acute @ ''der elegido: nodo ''
                    @ numStr idLeader @ ''.'',
                  highlightIds = Some [nid iniciador, idLeader],
                  leaderId = None, mensaje = None\<rparr>,
                 \<lparr>descripcion = ''Nodo '' @ numStr (nid nodoLider)
                    @ '' inicia la fase de ANUNCIO del l'' @ i_acute
                    @ ''der en el anillo.'',
                  highlightIds = Some [nid nodoLider],
                  leaderId = None, mensaje = None\<rparr>]
              @ map (ringAnuncio anillo idxLider idLeader) [1..<Suc (length anillo)]
              @ [\<lparr>descripcion = ''Todos los nodos actualizan al l'' @ i_acute @ ''der ''
                    @ numStr idLeader @ ''.'',
                  highlightIds = Some (map nid anillo),
                  leaderId = Some (Some idLeader), mensaje = None\<rparr>]))"

text \<open>An action that carries a message of the given kind.\<close>

definition esTipo :: "MessageKind \<Rightarrow> SimAction \<Rightarrow> bool" where
  "esTipo k a = (case mensaje a of None \<Rightarrow> False | Some m \<Rightarrow> tipo m = k)"

section \<open>Clock synchronisation: data model\<close>

definition u_acute :: string where "u_acute = [CHR 0xC3, CHR 0xBA]"
definition e_acute :: string where "e_acute = [CHR 0xC3, CHR 0xA9]"
definition comilla :: string where "comilla = [CHR 0x27]"
definition flecha :: string where "flecha = [CHR 0xE2, CHR 0x86, CHR 0x92]"
definition emojiEnvio :: string where "emojiEnvio = [CHR 0xF0, CHR 0x9F, CHR 0x93, CHR 0xA4]"
definition emojiRecibo :: string where "emojiRecibo = [CHR 0xF0, CHR 0x9F, CHR 0x93, CHR 0xA5]"
definition emojiAjuste :: string where
  "emojiAjuste = [CHR 0xE2, CHR 0x9A, CHR 0x99, CHR 0xEF, CHR 0xB8, CHR 0x8F]"
definition emojiCorona :: string where "emojiCorona = [CHR 0xF0, CHR 0x9F, CHR 0x91, CHR 0x91]"
definition emojiGrafica :: string where "emojiGrafica = [CHR 0xF0, CHR 0x9F, CHR 0x93, CHR 0x8A]"
definition emojiAbaco :: string where "emojiAbaco = [CHR 0xF0, CHR 0x9F, CHR 0xA7, CHR 0xAE]"
definition emojiSobre :: string where "emojiSobre = [CHR 0xF0, CHR 0x9F, CHR 0x93, CHR 0xA8]"
definition emojiHecho :: string where "emojiHecho = [CHR 0xE2, CHR 0x9C, CHR 0x85]"

datatype Rol = server | coordinator | client

text \<open>
  The fields \<open>id\<close>, \<open>failed\<close> and \<open>highlighted\<close> of \<open>ClockNode\<close>, and the fields of
  \<open>ClockMessage\<close> and \<open>ClockAction\<close> that \<open>SimMensaje\<close> and \<open>SimAction\<close> also have,
  carry a \<open>c\<close> in front: a field name is one constant in HOL.
\<close>

record ClockNode =
  cid :: int
  horaLocal :: int
  offsetInicial :: int
  offsetActual :: int
  cfailed :: bool
  chighlighted :: bool
  role :: "Rol option"
  rtt :: "int option"

datatype ClockTipo = request | response | berkeley_poll | berkeley_offset

text \<open>No compiler sets the \<open>payload\<close> of a \<open>ClockMessage\<close>; the model leaves it out.\<close>

record ClockMessage =
  cfromId :: int
  ctoId :: int
  ctipo :: ClockTipo

text \<open>
  A \<open>Record<number, number>\<close> is a list of (key, value) pairs in the order JavaScript
  enumerates the properties of an object: the keys that are array indices
  (\<open>0 \<le> k < 2^32 - 1\<close>) first, ascending, then the other keys in the order they were
  created. \<open>registroSet r k v\<close> is the assignment \<open>r[k] = v\<close>, \<^const>\<open>map_of\<close> the
  lookup \<open>r[k]\<close>, \<open>map snd\<close> is \<open>Object.values\<close> and \<^const>\<open>length\<close> is
  \<open>Object.keys(r).length\<close>.
\<close>

type_synonym registro = "(int \<times> int) list"

definition esIndice :: "int \<Rightarrow> bool" where
  "esIndice k = (0 \<le> k \<and> k < 4294967295)"

fun registroSet :: "registro \<Rightarrow> int \<Rightarrow> int \<Rightarrow> registro" where
  "registroSet [] k v = [(k, v)]"
| "registroSet ((k', v') # r) k v =
     (if k' = k then (k, v) # r
      else if esIndice k \<and> (\<not> esIndice k' \<or> k < k') then (k, v) # (k', v') # r
      else (k', v') # registroSet r k v)"

record ClockAction =
  cdescripcion :: string
  chighlightIds :: "int list option"
  cmensaje :: "ClockMessage option"
  ajustes :: "registro option"
  rttValues :: "registro option"

definition accionC :: "string \<Rightarrow> ClockAction" where
  "accionC d = \<lparr>cdescripcion = d, chighlightIds = None, cmensaje = None,
                 ajustes = None, rttValues = None\<rparr>"

definition vivosC :: "ClockNode list \<Rightarrow> ClockNode list" where
  "vivosC nodos = filter (\<lambda>n. \<not> cfailed n) nodos"

text \<open>
  The random source is the sequence of values \<open>Math.random()\<close> returns, each in
  \<open>[0, 1)\<close>; a compiler draws from it in order. A sampled one-way delay is
  \<open>Math.max(5, Math.floor(Math.random() * latenciaMax))\<close>.
\<close>

definition latencia :: "real \<Rightarrow> int \<Rightarrow> int" where
  "latencia r latenciaMax = max 5 \<lfloor>r * real_of_int latenciaMax\<rfloor>"

text \<open>
  \<open>new Date(t).toLocaleTimeString("es-MX", { hour12: false })\<close> depends on the time zone
  of the host: it is a parameter \<open>horaStr\<close> of the compilers.
\<close>

section \<open>The Cristian compiler\<close>

text \<open>The three actions of one client, from its two sampled delays.\<close>

definition cristianPasos ::
  "(int \<Rightarrow> string) \<Rightarrow> int \<Rightarrow> ClockNode \<Rightarrow> int \<Rightarrow> int \<Rightarrow> ClockAction list" where
  "cristianPasos horaStr baseReal nodo dIda dVuelta =
     (let T0 = horaLocal nodo + offsetActual nodo;
          Tserver = baseReal + dIda;
          RTT = dIda + dVuelta;
          theta = round (real_of_int Tserver - (real_of_int T0 + real_of_int RTT / 2))
      in [\<lparr>cdescripcion = emojiEnvio @ '' Nodo '' @ numStr (cid nodo) @ '' env'' @ i_acute
             @ ''a REQUEST al servidor | Latencia: ida='' @ numStr dIda @ ''ms, vuelta=''
             @ numStr dVuelta @ ''ms'',
           chighlightIds = Some [cid nodo],
           cmensaje = Some \<lparr>cfromId = cid nodo, ctoId = 0, ctipo = request\<rparr>,
           ajustes = None, rttValues = None\<rparr>,
          \<lparr>cdescripcion = emojiRecibo @ '' Servidor responde a Nodo '' @ numStr (cid nodo)
             @ '' | Hora del servidor: '' @ horaStr Tserver,
           chighlightIds = Some [cid nodo],
           cmensaje = Some \<lparr>cfromId = 0, ctoId = cid nodo, ctipo = response\<rparr>,
           ajustes = None, rttValues = None\<rparr>,
          \<lparr>cdescripcion = emojiAjuste @ '' Nodo '' @ numStr (cid nodo)
             @ '' ajusta reloj | RTT='' @ numStr RTT @ ''ms, Offset calculado=''
             @ numStr theta @ ''ms'',
           chighlightIds = Some [cid nodo],
           cmensaje = None,
           ajustes = Some (registroSet [] (cid nodo) theta),
           rttValues = Some (registroSet [] (cid nodo) RTT)\<rparr>])"

text \<open>
  The loop over the alive nodes; \<open>k\<close> counts the random values drawn so far (two per
  node, outbound first).
\<close>

fun cristianBucle ::
  "(nat \<Rightarrow> real) \<Rightarrow> (int \<Rightarrow> string) \<Rightarrow> int \<Rightarrow> int \<Rightarrow> nat \<Rightarrow> ClockNode list
     \<Rightarrow> ClockAction list" where
  "cristianBucle rnd horaStr latenciaMax baseReal k [] = []"
| "cristianBucle rnd horaStr latenciaMax baseReal k (nodo # resto) =
     cristianPasos horaStr baseReal nodo
       (latencia (rnd k) latenciaMax) (latencia (rnd (Suc k)) latenciaMax)
     @ cristianBucle rnd horaStr latenciaMax baseReal (k + 2) resto"

definition simularCristian ::
  "(nat \<Rightarrow> real) \<Rightarrow> (int \<Rightarrow> string) \<Rightarrow> ClockNode list \<Rightarrow> int \<Rightarrow> ClockAction list" where
  "simularCristian rnd horaStr nodos latenciaMax =
     (let vivos = vivosC nodos in
      case vivos of
        [] \<Rightarrow> [accionC ''No hay nodos activos para sincronizar con Cristian.'']
      | referencia # _ \<Rightarrow>
          (let baseReal = horaLocal referencia - offsetInicial referencia
           in accionC (''Servidor de referencia establecido. Su reloj representa el tiempo ''
                       @ comilla @ ''real'' @ comilla @ '' del sistema.'')
              # cristianBucle rnd horaStr latenciaMax baseReal 0 vivos
              @ [accionC (''Todos los nodos aplicaron sus ajustes seg'' @ u_acute
                          @ ''n Cristian.'')]))"

section \<open>The Berkeley compiler\<close>

definition horaDe :: "ClockNode \<Rightarrow> int" where
  "horaDe nodo = horaLocal nodo + offsetActual nodo"

text \<open>
  Phase 1, on the pair (\<open>acciones\<close>, \<open>horasReportadas\<close>): every alive node but the
  coordinator is polled (a node with the coordinator's id is skipped and draws nothing).
\<close>

fun berkeleyEncuesta ::
  "(nat \<Rightarrow> real) \<Rightarrow> (int \<Rightarrow> string) \<Rightarrow> int \<Rightarrow> ClockNode \<Rightarrow> nat \<Rightarrow> ClockNode list
     \<Rightarrow> ClockAction list \<times> registro \<Rightarrow> ClockAction list \<times> registro" where
  "berkeleyEncuesta rnd horaStr latenciaMax coord k [] st = st"
| "berkeleyEncuesta rnd horaStr latenciaMax coord k (nodo # resto) st =
     (if cid nodo = cid coord then berkeleyEncuesta rnd horaStr latenciaMax coord k resto st
      else
        (let dIda = latencia (rnd k) latenciaMax;
             dVuelta = latencia (rnd (Suc k)) latenciaMax;
             horaNodo = horaLocal nodo + offsetActual nodo
         in berkeleyEncuesta rnd horaStr latenciaMax coord (k + 2) resto
              (fst st @
               [\<lparr>cdescripcion = emojiEnvio @ '' Coordinador '' @ numStr (cid coord)
                    @ '' env'' @ i_acute @ ''a POLL a Nodo '' @ numStr (cid nodo)
                    @ '' | Latencia: ida='' @ numStr dIda @ ''ms, vuelta=''
                    @ numStr dVuelta @ ''ms'',
                  chighlightIds = Some [cid coord, cid nodo],
                  cmensaje = Some \<lparr>cfromId = cid coord, ctoId = cid nodo,
                                    ctipo = berkeley_poll\<rparr>,
                  ajustes = None, rttValues = None\<rparr>,
                 \<lparr>cdescripcion = emojiRecibo @ '' Nodo '' @ numStr (cid nodo)
                    @ '' responde con su hora local: '' @ horaStr horaNodo,
                  chighlightIds = Some [cid coord, cid nodo],
                  cmensaje = Some \<lparr>cfromId = cid nodo, ctoId = cid coord,
                                    ctipo = response\<rparr>,
                  ajustes = None, rttValues = None\<rparr>],
               registroSet (snd st) (cid nodo) horaNodo)))"

text \<open>
  The recorded times when phase 1 ends: the polled nodes', then the coordinator's own
  under its id.
\<close>

definition berkeleyFase1 ::
  "(nat \<Rightarrow> real) \<Rightarrow> (int \<Rightarrow> string) \<Rightarrow> int \<Rightarrow> ClockNode \<Rightarrow> ClockNode list
     \<Rightarrow> ClockAction list \<times> registro" where
  "berkeleyFase1 rnd horaStr latenciaMax coord vivos =
     (let st = berkeleyEncuesta rnd horaStr latenciaMax coord 0 vivos
                 ([\<lparr>cdescripcion = emojiCorona @ '' Nodo '' @ numStr (cid coord) @ '' act''
                       @ u_acute @ ''a como coordinador del algoritmo Berkeley'',
                     chighlightIds = Some [cid coord], cmensaje = None,
                     ajustes = None, rttValues = None\<rparr>], [])
      in (fst st, registroSet (snd st) (cid coord) (horaLocal coord + offsetActual coord)))"

text \<open>
  Phase 2: \<open>suma = Object.values(horasReportadas).reduce((a, b) => a + b, 0)\<close> and
  \<open>promedio = Math.round(suma / Object.keys(horasReportadas).length)\<close>.
\<close>

definition promedioDe :: "registro \<Rightarrow> int" where
  "promedioDe horasReportadas =
     (let suma = foldl (\<lambda>a b. a + b) 0 (map snd horasReportadas)
      in round (real_of_int suma / real (length horasReportadas)))"

text \<open>Phase 3, on the pair (\<open>acciones\<close>, \<open>offsets\<close>).\<close>

definition berkeleyAjuste ::
  "ClockNode \<Rightarrow> int \<Rightarrow> ClockAction list \<times> registro \<Rightarrow> ClockNode
     \<Rightarrow> ClockAction list \<times> registro" where
  "berkeleyAjuste coord promedio st nodo =
     (let horaActual = horaLocal nodo + offsetActual nodo;
          diff = promedio - horaActual
      in (fst st @
          [\<lparr>cdescripcion = emojiSobre @ '' Coordinador '' @ numStr (cid coord) @ '' env''
               @ i_acute @ ''a ajuste a Nodo '' @ numStr (cid nodo) @ '' | Offset=''
               @ numStr diff @ ''ms'',
             chighlightIds = Some [cid coord, cid nodo],
             cmensaje = Some \<lparr>cfromId = cid coord, ctoId = cid nodo,
                               ctipo = berkeley_offset\<rparr>,
             ajustes = None, rttValues = None\<rparr>],
          registroSet (snd st) (cid nodo) diff))"

definition simularBerkeley ::
  "(nat \<Rightarrow> real) \<Rightarrow> (int \<Rightarrow> string) \<Rightarrow> ClockNode list \<Rightarrow> int \<Rightarrow> ClockAction list" where
  "simularBerkeley rnd horaStr nodos latenciaMax =
     (let vivos = vivosC nodos in
      case vivos of
        [] \<Rightarrow> [accionC ''No hay nodos activos para ejecutar Berkeley.'']
      | coord # _ \<Rightarrow>
          (let fase1 = berkeleyFase1 rnd horaStr latenciaMax coord vivos;
               horasReportadas = snd fase1;
               promedio = promedioDe horasReportadas;
               fase3 = foldl (berkeleyAjuste coord promedio)
                 (fst fase1 @
                  [\<lparr>cdescripcion = emojiGrafica @ '' Coordinador '' @ numStr (cid coord)
                       @ '' recopila '' @ numStr (int (length horasReportadas))
                       @ '' horas de los nodos'',
                     chighlightIds = Some [cid coord], cmensaje = None,
                     ajustes = None, rttValues = None\<rparr>,
                   \<lparr>cdescripcion = emojiAbaco @ '' Promedio calculado: '' @ horaStr promedio
                       @ '' | '' @ numStr (int (length horasReportadas)) @ '' nodos'',
                     chighlightIds = Some [cid coord], cmensaje = None,
                     ajustes = None, rttValues = None\<rparr>],
                  [])
                 vivos
           in fst fase3
              @ [\<lparr>cdescripcion = emojiHecho @ '' Nodos aplican ajustes seg'' @ u_acute
                    @ ''n Berkeley'',
                  chighlightIds = Some (map cid vivos), cmensaje = None,
                  ajustes = Some (snd fase3), rttValues = None\<rparr>]))"

text \<open>
  Two observations on a compiled clock sequence: an action with its description
  blanked, and whether an action carries a message of a given kind.
\<close>

definition sinDescripcion :: "ClockAction \<Rightarrow> ClockAction" where
  "sinDescripcion a = a\<lparr>cdescripcion := []\<rparr>"

definition esTipoC :: "ClockTipo \<Rightarrow> ClockAction \<Rightarrow> bool" where
  "esTipoC k a = (case cmensaje a of None \<Rightarrow> False | Some m \<Rightarrow> ctipo m = k)"

text \<open>A clock list as the simulator makes it: ids pairwise different, no node failed.\<close>

definition relojesOk :: "ClockNode list \<Rightarrow> bool" where
  "relojesOk ns = (distinct (map cid ns) \<and> list_all (\<lambda>n. \<not> cfailed n) ns)"

section \<open>The election simulator: state and playback controller\<close>

text \<open>
  The state of the component \<open>ElectionSimulator\<close>: one field per \<open>useState\<close> hook the
  controller reads or writes (the playback speed and the three accordion flags only
  drive the timer delay and the layout). The fields carry an \<open>E\<close> where the name is
  also a field of an action or of the clock simulator.

  An event handler runs on the values of the current render and queues its state
  updates; the component then renders again. Updater functions run once, as in a
  production build.

  \<open>avanzarPaso\<close> is \<open>useCallback(..., [acciones.length])\<close>: React keeps the function of
  an earlier render, with the \<open>acciones\<close> array that render saw, until the dependency
  \<open>acciones.length\<close> changes. \<open>accionesPaso\<close> is the array the memoised function holds;
  \<open>renderE\<close> is what a render does to it. The array it holds always has the length of
  the dependency it was stored with, so comparing lengths compares the dependency.
\<close>

datatype Algorithm = bully | ring

record ElectionSimulator =
  numNodosE :: int
  algoritmoActivoE :: Algorithm
  nodosE :: "NodoSim list"
  leaderIdE :: "int option"
  recentLeaderId :: "int option"
  logsE :: "string list"
  modoIniciador :: bool
  nodoIniciador :: "int option"
  accionesE :: "SimAction list"
  pasoIndexE :: nat
  isPlayingE :: bool
  mensajeActualE :: "SimMensaje option"
  accionesPaso :: "SimAction list"

definition estadoInicialE :: ElectionSimulator where
  "estadoInicialE =
     \<lparr>numNodosE = 5, algoritmoActivoE = bully, nodosE = [], leaderIdE = None,
      recentLeaderId = None, logsE = [], modoIniciador = False, nodoIniciador = None,
      accionesE = [], pasoIndexE = 0, isPlayingE = False, mensajeActualE = None,
      accionesPaso = []\<rparr>"

definition renderE :: "ElectionSimulator \<Rightarrow> ElectionSimulator" where
  "renderE s =
     (if length (accionesE s) = length (accionesPaso s) then s
      else s\<lparr>accionesPaso := accionesE s\<rparr>)"

text \<open>\<open>setLogs((prev) => [...prev, `[t=${prev.length}] ${msg}`])\<close>\<close>

definition pushLog :: "string \<Rightarrow> string list \<Rightarrow> string list" where
  "pushLog msg prev = prev @ [''[t='' @ numStr (int (length prev)) @ ''] '' @ msg]"

text \<open>
  \<open>generarNodos\<close> draws ids in \<open>10..99\<close> until it has \<open>cantidad\<close> different ones; \<open>ids\<close>
  is the list it ends with, the nodes are made from it.
\<close>

definition nodosDe :: "int list \<Rightarrow> NodoSim list" where
  "nodosDe ids = map (\<lambda>i. \<lparr>nid = i, failed = False, highlighted = False\<rparr>) ids"

definition handleGenerarNodos :: "int list \<Rightarrow> ElectionSimulator \<Rightarrow> ElectionSimulator" where
  "handleGenerarNodos ids s =
     (if numNodosE s < 3 \<or> numNodosE s > 15 then s\<lparr>numNodosE := 5\<rparr>
      else s\<lparr>nodosE := nodosDe ids, leaderIdE := None, recentLeaderId := None,
             nodoIniciador := None, modoIniciador := False, accionesE := [],
             pasoIndexE := 0, isPlayingE := False, mensajeActualE := None,
             logsE := [''[t=0] Nodos generados (todos activos, sin l'' @ i_acute
                         @ ''der inicial).'',
                       ''[t=1] Selecciona un iniciador y luego pulsa '' @ comilla
                         @ ''Iniciar elecci'' @ o_acute @ ''n'' @ comilla @ ''.'']\<rparr>)"

definition toggleFallarNodo :: "int \<Rightarrow> ElectionSimulator \<Rightarrow> ElectionSimulator" where
  "toggleFallarNodo i s =
     (let estabaFallado = (case find (\<lambda>n. nid n = i) (nodosE s) of
                             None \<Rightarrow> False | Some n \<Rightarrow> failed n);
          s1 = s\<lparr>nodosE := map (\<lambda>n. if nid n = i
                                      then n\<lparr>failed := \<not> failed n, highlighted := False\<rparr>
                                      else n) (nodosE s)\<rparr>;
          s2 = s1\<lparr>logsE := pushLog (''Nodo '' @ numStr i @ '' ''
                      @ (if estabaFallado then ''revivido''
                         else ''marcado como ca'' @ i_acute @ ''do'') @ ''.'') (logsE s1)\<rparr>
      in if leaderIdE s = Some i \<and> \<not> estabaFallado
         then s2\<lparr>leaderIdE := None,
                 logsE := pushLog (''El l'' @ i_acute @ ''der '' @ numStr i
                            @ '' ha fallado. Ya no hay l'' @ i_acute @ ''der actual.'')
                            (logsE s2)\<rparr>
         else s2)"

definition seleccionarIniciador :: "int \<Rightarrow> ElectionSimulator \<Rightarrow> ElectionSimulator" where
  "seleccionarIniciador i s =
     (if \<not> modoIniciador s then s
      else if (case find (\<lambda>n. nid n = i) (nodosE s) of None \<Rightarrow> True | Some n \<Rightarrow> failed n)
      then s\<lparr>logsE := pushLog (''No se puede seleccionar el nodo '' @ numStr i
                        @ '' como iniciador (est'' @ a_acute @ '' ca'' @ i_acute @ ''do).'')
                        (logsE s)\<rparr>
      else s\<lparr>nodoIniciador := Some i,
             nodosE := map (\<lambda>n. n\<lparr>highlighted := (nid n = i)\<rparr>) (nodosE s),
             modoIniciador := False,
             logsE := pushLog (''Nodo '' @ numStr i
                        @ '' seleccionado como iniciador de la elecci'' @ o_acute @ ''n.'')
                        (logsE s)\<rparr>)"

text \<open>\<open>!nodoIniciador\<close> holds of \<open>null\<close> and of the id \<open>0\<close>.\<close>

definition handleIniciarEleccion :: "ElectionSimulator \<Rightarrow> ElectionSimulator" where
  "handleIniciarEleccion s =
     (case (if nodoIniciador s = Some 0 then None else nodoIniciador s) of
        None \<Rightarrow>
          s\<lparr>logsE := pushLog (''Selecciona primero un nodo iniciador (bot'' @ o_acute
                       @ ''n '' @ comilla @ ''Seleccionar iniciador'' @ comilla @ '').'')
                       (logsE s)\<rparr>
      | Some ini \<Rightarrow>
          if length (nodosE s) = 0
          then s\<lparr>logsE := pushLog ''Primero genera los nodos.'' (logsE s)\<rparr>
          else
            (let accionesSim = (if algoritmoActivoE s = bully
                                then simularBully (nodosE s) ini
                                else simularRingCompleto (nodosE s) ini)
             in s\<lparr>accionesE := accionesSim, pasoIndexE := 0, mensajeActualE := None,
                   nodosE := map (\<lambda>n. n\<lparr>highlighted := (nid n = ini)\<rparr>) (nodosE s),
                   logsE := pushLog (''Secuencia de elecci'' @ o_acute
                              @ ''n generada. La simulaci'' @ o_acute @ ''n se est''
                              @ a_acute @ '' ejecutando autom'' @ a_acute @ ''ticamente.'')
                              (logsE s),
                   isPlayingE := True\<rparr>))"

definition sinSecuencia :: string where
  "sinSecuencia = ''Primero genera una elecci'' @ o_acute @ ''n con '' @ comilla
                  @ ''Iniciar elecci'' @ o_acute @ ''n'' @ comilla @ ''.''"

definition handlePlay :: "ElectionSimulator \<Rightarrow> ElectionSimulator" where
  "handlePlay s =
     (if length (accionesE s) = 0 then s\<lparr>logsE := pushLog sinSecuencia (logsE s)\<rparr>
      else s\<lparr>isPlayingE := True\<rparr>)"

definition handlePause :: "ElectionSimulator \<Rightarrow> ElectionSimulator" where
  "handlePause s = s\<lparr>isPlayingE := False\<rparr>"

text \<open>
  What \<open>avanzarPaso\<close> does with the action \<open>acc\<close> under the cursor, the cursor apart:
  the log line, the leader, the message in flight, the highlights.
\<close>

definition aplicarE :: "SimAction \<Rightarrow> ElectionSimulator \<Rightarrow> ElectionSimulator" where
  "aplicarE acc s =
     (let s1 = s\<lparr>logsE := pushLog (descripcion acc) (logsE s)\<rparr>;
          s2 = (case leaderId acc of
                  None \<Rightarrow> s1
                | Some l \<Rightarrow> s1\<lparr>leaderIdE := l, recentLeaderId := l\<rparr>);
          s3 = s2\<lparr>mensajeActualE := mensaje acc\<rparr>
      in case highlightIds acc of
           None \<Rightarrow> s3\<lparr>nodosE := map (\<lambda>n. n\<lparr>highlighted := False\<rparr>) (nodosE s3)\<rparr>
         | Some hs \<Rightarrow>
             if length hs > 0
             then s3\<lparr>nodosE := map (\<lambda>n. n\<lparr>highlighted := (nid n \<in> set hs)\<rparr>) (nodosE s3)\<rparr>
             else s3\<lparr>nodosE := map (\<lambda>n. n\<lparr>highlighted := False\<rparr>) (nodosE s3)\<rparr>)"

text \<open>The memoised \<open>avanzarPaso\<close>: it reads the array it holds, not the state's.\<close>

definition avanzarPaso :: "ElectionSimulator \<Rightarrow> ElectionSimulator" where
  "avanzarPaso s =
     (let acciones = accionesPaso s; currentIndex = pasoIndexE s
      in if currentIndex \<ge> length acciones then s\<lparr>isPlayingE := False\<rparr>
         else (aplicarE (acciones ! currentIndex) s)\<lparr>pasoIndexE := currentIndex + 1\<rparr>)"

definition handlePaso :: "ElectionSimulator \<Rightarrow> ElectionSimulator" where
  "handlePaso s =
     (if length (accionesE s) = 0 then s\<lparr>logsE := pushLog sinSecuencia (logsE s)\<rparr>
      else avanzarPaso s)"

text \<open>The timer of the automatic playback: armed only while playing before the end.\<close>

definition temporizadorE :: "ElectionSimulator \<Rightarrow> ElectionSimulator" where
  "temporizadorE s =
     (if \<not> isPlayingE s \<or> pasoIndexE s \<ge> length (accionesE s) then s
      else avanzarPaso s)"

definition reiniciar :: "ElectionSimulator \<Rightarrow> ElectionSimulator" where
  "reiniciar s =
     s\<lparr>nodosE := [], leaderIdE := None, recentLeaderId := None, nodoIniciador := None,
       accionesE := [], pasoIndexE := 0, isPlayingE := False, mensajeActualE := None,
       logsE := [''[t=0] Simulador reiniciado.'',
                 ''[t=1] Genera nodos para comenzar de nuevo.'']\<rparr>"

text \<open>
  What the user and the timers can do to the component. A click on a node selects the
  initiator in selection mode and fails or revives the node otherwise. The number
  field takes what \<open>parseInt\<close> reads (the empty field counts as 0) when it is between
  0 and 99. \<open>FinCoronacion\<close> is the timer that ends the crowning animation.
\<close>

datatype EventoE =
    GenerarNodos "int list"
  | CambiarNumNodos int
  | CambiarAlgoritmo Algorithm
  | SeleccionarIniciador
  | ClickNodo int
  | IniciarEleccion
  | Reiniciar
  | Play
  | Pause
  | Paso
  | Temporizador
  | FinCoronacion
  | ClearLogs

fun manejarE :: "EventoE \<Rightarrow> ElectionSimulator \<Rightarrow> ElectionSimulator" where
  "manejarE (GenerarNodos ids) s = handleGenerarNodos ids s"
| "manejarE (CambiarNumNodos n) s = (if 0 \<le> n \<and> n \<le> 99 then s\<lparr>numNodosE := n\<rparr> else s)"
| "manejarE (CambiarAlgoritmo a) s = s\<lparr>algoritmoActivoE := a\<rparr>"
| "manejarE SeleccionarIniciador s = s\<lparr>modoIniciador := True\<rparr>"
| "manejarE (ClickNodo i) s =
     (if modoIniciador s then seleccionarIniciador i s else toggleFallarNodo i s)"
| "manejarE IniciarEleccion s = handleIniciarEleccion s"
| "manejarE Reiniciar s = reiniciar s"
| "manejarE Play s = handlePlay s"
| "manejarE Pause s = handlePause s"
| "manejarE Paso s = handlePaso s"
| "manejarE Temporizador s = temporizadorE s"
| "manejarE FinCoronacion s = s\<lparr>recentLeaderId := None\<rparr>"
| "manejarE ClearLogs s = s\<lparr>logsE := []\<rparr>"

text \<open>One event: the handler runs on the current render, then the component renders.\<close>

definition eventoE :: "EventoE \<Rightarrow> ElectionSimulator \<Rightarrow> ElectionSimulator" where
  "eventoE e s = renderE (manejarE e s)"

definition correrE :: "EventoE list \<Rightarrow> ElectionSimulator \<Rightarrow> ElectionSimulator" where
  "correrE es s = foldl (\<lambda>st e. eventoE e st) s es"

section \<open>The clock simulator: state and playback controller\<close>

datatype ClockAlgorithm = cristian | berkeley

record ClockSyncSimulator =
  numNodosC :: int
  algoritmoActivoC :: ClockAlgorithm
  latenciaMaxC :: int
  nodosC :: "ClockNode list"
  accionesC :: "ClockAction list"
  pasoIndexC :: nat
  isPlayingC :: bool
  mensajeActualC :: "ClockMessage option"
  logsC :: "string list"

definition estadoInicialC :: ClockSyncSimulator where
  "estadoInicialC =
     \<lparr>numNodosC = 4, algoritmoActivoC = cristian, latenciaMaxC = 200, nodosC = [],
      accionesC = [], pasoIndexC = 0, isPlayingC = False, mensajeActualC = None,
      logsC = []\<rparr>"

text \<open>
  \<open>generarRelojes\<close>: \<open>now\<close> is \<open>Date.now()\<close>, client \<open>i\<close> draws the \<open>i\<close>-th random value for
  its offset \<open>Math.floor(Math.random() * 6000 - 3000)\<close>.
\<close>

definition generarRelojes :: "int \<Rightarrow> (nat \<Rightarrow> real) \<Rightarrow> int \<Rightarrow> ClockAlgorithm \<Rightarrow> ClockNode list" where
  "generarRelojes now rnd cantidad algoritmo =
     \<lparr>cid = 0, horaLocal = now, offsetInicial = 0, offsetActual = 0, cfailed = False,
      chighlighted = False,
      role = Some (if algoritmo = cristian then server else coordinator), rtt = None\<rparr>
     # map (\<lambda>i. let offset = \<lfloor>rnd (i - 1) * 6000 - 3000\<rfloor>
               in \<lparr>cid = int i, horaLocal = now + offset, offsetInicial = offset,
                   offsetActual = 0, cfailed = False, chighlighted = False,
                   role = Some client, rtt = None\<rparr>)
         [1..<Suc (nat cantidad)]"

definition handleGenerarRelojes ::
  "int \<Rightarrow> (nat \<Rightarrow> real) \<Rightarrow> ClockSyncSimulator \<Rightarrow> ClockSyncSimulator" where
  "handleGenerarRelojes now rnd s =
     (if numNodosC s < 2 \<or> numNodosC s > 12 then s\<lparr>numNodosC := 4\<rparr>
      else if latenciaMaxC s < 10 \<or> latenciaMaxC s > 1000 then s\<lparr>latenciaMaxC := 100\<rparr>
      else s\<lparr>nodosC := generarRelojes now rnd (numNodosC s) (algoritmoActivoC s),
             accionesC := [], pasoIndexC := 0, isPlayingC := False,
             mensajeActualC := None,
             logsC := [''[t=0] Relojes generados con offsets aleatorios.'',
                       ''[t=1] Nodo 0 act'' @ u_acute @ ''a como ''
                         @ (if algoritmoActivoC s = cristian then ''servidor''
                            else ''coordinador'') @ ''.'',
                       ''[t=2] Presiona '' @ comilla @ ''Sincronizar'' @ comilla
                         @ '' para iniciar el algoritmo.'']\<rparr>)"

definition handleSincronizar ::
  "(nat \<Rightarrow> real) \<Rightarrow> (int \<Rightarrow> string) \<Rightarrow> ClockSyncSimulator \<Rightarrow> ClockSyncSimulator" where
  "handleSincronizar rnd horaStr s =
     (if length (nodosC s) = 0
      then s\<lparr>logsC := pushLog ''Primero genera relojes.'' (logsC s)\<rparr>
      else
        (let s1 = s\<lparr>nodosC := map (\<lambda>n. n\<lparr>chighlighted := False\<rparr>) (nodosC s),
                     mensajeActualC := None\<rparr>;
             s2 = (if algoritmoActivoC s = cristian
                   then s1\<lparr>logsC := pushLog ''Ejecutando algoritmo Cristian...'' (logsC s1),
                           accionesC := simularCristian rnd horaStr (nodosC s)
                                          (latenciaMaxC s)\<rparr>
                   else s1\<lparr>logsC := pushLog ''Ejecutando algoritmo Berkeley...'' (logsC s1),
                           accionesC := simularBerkeley rnd horaStr (nodosC s)
                                          (latenciaMaxC s)\<rparr>)
         in s2\<lparr>pasoIndexC := 0, isPlayingC := True\<rparr>))"

text \<open>
  The log lines of an action with \<open>ajustes\<close>: one per entry whose node exists, with the
  offset before and after.
\<close>

definition lineaAjuste :: "string \<Rightarrow> ClockNode list \<Rightarrow> string list \<Rightarrow> int \<times> int \<Rightarrow> string list" where
  "lineaAjuste desc nodos logs par =
     (let nodeId = fst par; newOffset = snd par
      in case find (\<lambda>n. cid n = nodeId) nodos of
           None \<Rightarrow> logs
         | Some nodo \<Rightarrow>
             (let before = offsetActual nodo;
                  delta = newOffset - before;
                  deltaStr = (if delta > 0 then ''+'' @ numStr delta else numStr delta)
              in pushLog (desc @ '' | Nodo '' @ numStr nodeId @ '': offset ''
                          @ numStr before @ ''ms '' @ flecha @ '' '' @ numStr newOffset
                          @ ''ms ('' @ deltaStr @ ''ms)'') logs))"

text \<open>An optional field that is there (an object is truthy, \<open>undefined\<close> is not).\<close>

definition presente :: "'a option \<Rightarrow> bool" where
  "presente x = (case x of None \<Rightarrow> False | Some _ \<Rightarrow> True)"

text \<open>
  What \<open>avanzarPaso\<close> of the clock simulator does with the action under the cursor, the
  cursor apart: (a) the log lines, (b) the highlights, (c) the message in flight,
  (d) the offsets and round-trip times.
\<close>

definition aplicarC :: "ClockAction \<Rightarrow> ClockSyncSimulator \<Rightarrow> ClockSyncSimulator" where
  "aplicarC acc s =
     (let s1 = (case ajustes acc of
                  Some aj \<Rightarrow>
                    s\<lparr>logsC := foldl (lineaAjuste (cdescripcion acc) (nodosC s)) (logsC s) aj\<rparr>
                | None \<Rightarrow> s\<lparr>logsC := pushLog (cdescripcion acc) (logsC s)\<rparr>);
          s2 = (case chighlightIds acc of
                  Some hs \<Rightarrow> s1\<lparr>nodosC := map (\<lambda>n. n\<lparr>chighlighted := (cid n \<in> set hs)\<rparr>)
                                              (nodosC s1)\<rparr>
                | None \<Rightarrow> s1\<lparr>nodosC := map (\<lambda>n. n\<lparr>chighlighted := False\<rparr>) (nodosC s1)\<rparr>);
          s3 = s2\<lparr>mensajeActualC := cmensaje acc\<rparr>
      in if presente (ajustes acc) \<or> presente (rttValues acc)
         then s3\<lparr>nodosC :=
                   map (\<lambda>n. n\<lparr>offsetActual :=
                                 (case ajustes acc of
                                    None \<Rightarrow> offsetActual n
                                  | Some aj \<Rightarrow> (case map_of aj (cid n) of
                                                 Some v \<Rightarrow> v | None \<Rightarrow> offsetActual n)),
                               rtt :=
                                 (case rttValues acc of
                                    None \<Rightarrow> rtt n
                                  | Some rv \<Rightarrow> (case map_of rv (cid n) of
                                                 Some v \<Rightarrow> Some v | None \<Rightarrow> rtt n))\<rparr>)
                       (nodosC s3)\<rparr>
         else s3)"

definition avanzarPasoC :: "ClockSyncSimulator \<Rightarrow> ClockSyncSimulator" where
  "avanzarPasoC s =
     (if pasoIndexC s \<ge> length (accionesC s) then s\<lparr>isPlayingC := False\<rparr>
      else (aplicarC (accionesC s ! pasoIndexC s) s)\<lparr>pasoIndexC := pasoIndexC s + 1\<rparr>)"

definition temporizadorC :: "ClockSyncSimulator \<Rightarrow> ClockSyncSimulator" where
  "temporizadorC s =
     (if \<not> isPlayingC s then s
      else if pasoIndexC s \<ge> length (accionesC s) then s
      else avanzarPasoC s)"

text \<open>
  The events of the clock simulator. \<open>Tic\<close> is the one-second interval that advances
  every \<open>horaLocal\<close>. The Play and Pause buttons set \<open>isPlaying\<close> themselves; the Paso
  button is \<open>avanzarPaso\<close>. The number fields take what \<open>parseInt\<close> reads when it is
  between 0 and 99 (nodes) or 0 and 9999 (latency).
\<close>

datatype EventoC =
    GenerarRelojes int "nat \<Rightarrow> real"
  | CambiarNumNodosC int
  | CambiarAlgoritmoC ClockAlgorithm
  | CambiarLatenciaC int
  | Sincronizar "nat \<Rightarrow> real"
  | PlayC
  | PauseC
  | PasoC
  | TemporizadorC
  | Tic
  | ClearLogsC

fun eventoC :: "(int \<Rightarrow> string) \<Rightarrow> EventoC \<Rightarrow> ClockSyncSimulator \<Rightarrow> ClockSyncSimulator" where
  "eventoC horaStr (GenerarRelojes now rnd) s = handleGenerarRelojes now rnd s"
| "eventoC horaStr (CambiarNumNodosC n) s =
     (if 0 \<le> n \<and> n \<le> 99 then s\<lparr>numNodosC := n\<rparr> else s)"
| "eventoC horaStr (CambiarAlgoritmoC a) s = s\<lparr>algoritmoActivoC := a\<rparr>"
| "eventoC horaStr (CambiarLatenciaC l) s =
     (if 0 \<le> l \<and> l \<le> 9999 then s\<lparr>latenciaMaxC := l\<rparr> else s)"
| "eventoC horaStr (Sincronizar rnd) s = handleSincronizar rnd horaStr s"
| "eventoC horaStr PlayC s = s\<lparr>isPlayingC := True\<rparr>"
| "eventoC horaStr PauseC s = s\<lparr>isPlayingC := False\<rparr>"
| "eventoC horaStr PasoC s = avanzarPasoC s"
| "eventoC horaStr TemporizadorC s = temporizadorC s"
| "eventoC horaStr Tic s =
     s\<lparr>nodosC := map (\<lambda>n. n\<lparr>horaLocal := horaLocal n + 1000\<rparr>) (nodosC s)\<rparr>"
| "eventoC horaStr ClearLogsC s = s\<lparr>logsC := []\<rparr>"

definition correrC ::
  "(int \<Rightarrow> string) \<Rightarrow> EventoC list \<Rightarrow> ClockSyncSimulator \<Rightarrow> ClockSyncSimulator" where
  "correrC horaStr es s = foldl (\<lambda>st e. eventoC horaStr e st) s es"

section \<open>Scenarios\<close>

text \<open>
  The end-to-end scenario of the specification, played on the controller: four nodes
  12, 55, 30, 81, Bully from initiator 30, paused and single-stepped to its end.
\<close>

definition primeraEleccion :: "EventoE list" where
  "primeraEleccion =
     [CambiarNumNodos 4, GenerarNodos [12, 55, 30, 81], SeleccionarIniciador, ClickNodo 30,
      IniciarEleccion, Pause, Paso, Paso, Paso, Paso, Paso, Paso]"

text \<open>Then node 81 is failed and a second election is run from initiator 12.\<close>

definition segundaEleccion :: "EventoE list" where
  "segundaEleccion =
     [ClickNodo 81, SeleccionarIniciador, ClickNodo 12, IniciarEleccion, Pause,
      Paso, Paso, Paso, Paso, Paso, Paso]"

text \<open>The log lines \<open>pushLog\<close> makes of the descriptions of a sequence, from line \<open>t\<close> on.\<close>

fun lineasDe :: "nat \<Rightarrow> SimAction list \<Rightarrow> string list" where
  "lineasDe t [] = []"
| "lineasDe t (a # as) =
     (''[t='' @ numStr (int t) @ ''] '' @ descripcion a) # lineasDe (Suc t) as"

text \<open>
  A Cristian run on the clock controller: five clocks generated at time 1000, the
  sequence compiled with delays 100 and 20 for the first node, the playback paused and
  three steps taken (the cursor is on the first adjustment action).
\<close>

definition sincronizacionCristian :: "EventoC list" where
  "sincronizacionCristian =
     [GenerarRelojes 1000 (\<lambda>k. 1 / 2), Sincronizar (\<lambda>k. if k = 0 then 1 / 2 else 1 / 10),
      PauseC, PasoC, PasoC, PasoC]"

section \<open>Verification of the election compilers\<close>

subsection \<open>Bully\<close>


lemma find_Some_props:
  assumes "find P xs = Some x"
  shows "P x \<and> x \<in> set xs"
  using assms by (auto simp: find_Some_iff)

text \<open>
  The initiator is alive exactly when \<open>vivos.find\<close> returns a node: this is how the
  theorems below say it.
\<close>

lemma iniciador_vivo_iff:
  "(\<exists>n \<in> set nodos. \<not> failed n \<and> nid n = i)
     \<longleftrightarrow> (\<exists>ini. find (\<lambda>n. nid n = i) (vivosDe nodos) = Some ini)"
proof
  assume "\<exists>n \<in> set nodos. \<not> failed n \<and> nid n = i"
  then have "\<exists>x. x \<in> set (vivosDe nodos) \<and> nid x = i" by (auto simp: vivosDe_def)
  then have "find (\<lambda>n. nid n = i) (vivosDe nodos) \<noteq> None" by (simp add: find_None_iff)
  then show "\<exists>ini. find (\<lambda>n. nid n = i) (vivosDe nodos) = Some ini" by auto
next
  assume "\<exists>ini. find (\<lambda>n. nid n = i) (vivosDe nodos) = Some ini"
  then obtain a where a: "find (\<lambda>n. nid n = i) (vivosDe nodos) = Some a" by blast
  from find_Some_props [OF a] have "nid a = i" and "a \<in> set nodos" and "\<not> failed a"
    by (simp_all add: vivosDe_def)
  then show "\<exists>n \<in> set nodos. \<not> failed n \<and> nid n = i" by auto
qed

lemma nid_foldl_max:
  "nid (foldl (\<lambda>mx n. if nid n > nid mx then n else mx) a xs) = Max (insert (nid a) (nid ` set xs))"
proof (induction xs arbitrary: a)
  case Nil
  then show ?case by simp
next
  case (Cons x xs)
  let ?f = "\<lambda>mx n. if nid n > nid mx then n else mx"
  have step: "nid (?f a x) = max (nid a) (nid x)" by (simp add: max_def)
  have "nid (foldl ?f a (x # xs)) = Max (insert (nid (?f a x)) (nid ` set xs))"
    using Cons.IH [of "?f a x"] by simp
  also have "\<dots> = Max (insert (max (nid a) (nid x)) (nid ` set xs))"
    using step by simp
  also have "\<dots> = max (max (nid a) (nid x)) (Max (insert (nid x) (nid ` set xs)))"
  proof (cases "xs = []")
    case True
    then show ?thesis by simp
  next
    case False
    then show ?thesis by (simp add: max.assoc max.left_commute)
  qed
  also have "\<dots> = Max (insert (nid a) (insert (nid x) (nid ` set xs)))"
    by (simp add: max.assoc max.left_commute max.commute)
  finally show ?case by simp
qed

lemma no_superiores_max:
  assumes "ini \<in> set vivos" and "filter (\<lambda>n. nid n > nid ini) vivos = []"
  shows "Max (nid ` set vivos) = nid ini"
proof (rule Max_eqI)
  show "finite (nid ` set vivos)" by simp
  show "nid ini \<in> nid ` set vivos" using assms(1) by simp
  fix y assume "y \<in> nid ` set vivos"
  then obtain n where n: "n \<in> set vivos" "y = nid n" by auto
  from assms(2) n(1) have "\<not> nid n > nid ini" by (auto simp: filter_empty_conv)
  with n(2) show "y \<le> nid ini" by simp
qed

lemma leaderId_bullyPar: "a \<in> set (bullyPar ini y) \<Longrightarrow> leaderId a = None"
  by (auto simp: bullyPar_def)

text \<open>
  Claim C1. Whenever the initiator is alive, the last action of the Bully sequence
  sets \<open>leaderId\<close> to the largest id among the alive nodes, and no earlier action sets
  a leader. The hypothesis says that \<open>vivos.find\<close> returns the initiator. The witness
  is the scenario of the specification: nodes 12, 55, 30, 81 with initiator 30 end
  with leader 81, and with node 81 failed the run ends with leader 55.
\<close>

theorem bully_terminal_leader_is_max:
  assumes "find (\<lambda>n. nid n = iniciadorId) (vivosDe nodos) = Some iniciador"
  shows "leaderId (last (simularBully nodos iniciadorId))
           = Some (Some (Max (nid ` set (vivosDe nodos))))
         \<and> (\<forall>a \<in> set (butlast (simularBully nodos iniciadorId)). leaderId a = None)"
proof -
  let ?vivos = "vivosDe nodos"
  from assms have mem: "iniciador \<in> set ?vivos"
    by (simp add: find_Some_props)
  show ?thesis
  proof (cases "filter (\<lambda>n. nid n > nid iniciador) ?vivos = []")
    case True
    then show ?thesis
      using assms no_superiores_max [OF mem True] by (simp add: simularBully_def)
  next
    case False
    have "insert (nid iniciador) (nid ` set ?vivos) = nid ` set ?vivos"
      using mem by auto
    then have "nid (foldl (\<lambda>mx n. if nid n > nid mx then n else mx) iniciador ?vivos)
                 = Max (nid ` set ?vivos)"
      by (simp add: nid_foldl_max)
    then show ?thesis
      using assms False
      by (auto simp: simularBully_def Let_def butlast_append dest: leaderId_bullyPar)
  qed
qed

theorem bully_terminal_leader_is_max_witness:
  "leaderId (last (simularBully (nodosDe [12, 55, 30, 81]) 30)) = Some (Some 81)
   \<and> leaderId (last (simularBully
        [\<lparr>nid = 12, failed = False, highlighted = False\<rparr>,
         \<lparr>nid = 55, failed = False, highlighted = False\<rparr>,
         \<lparr>nid = 30, failed = False, highlighted = False\<rparr>,
         \<lparr>nid = 81, failed = True, highlighted = False\<rparr>] 30)) = Some (Some 55)"
  using bully_terminal_leader_is_max
          [of 30 "nodosDe [12, 55, 30, 81]" "\<lparr>nid = 30, failed = False, highlighted = False\<rparr>"]
        bully_terminal_leader_is_max
          [of 30 "[\<lparr>nid = 12, failed = False, highlighted = False\<rparr>,
                   \<lparr>nid = 55, failed = False, highlighted = False\<rparr>,
                   \<lparr>nid = 30, failed = False, highlighted = False\<rparr>,
                   \<lparr>nid = 81, failed = True, highlighted = False\<rparr>]"
              "\<lparr>nid = 30, failed = False, highlighted = False\<rparr>"]
  by (simp add: nodosDe_def vivosDe_def)

subsection \<open>Ring\<close>

lemma anilloDe_set [simp]: "set (anilloDe vivos i) = set vivos"
  by (auto simp: anilloDe_def Let_def dest: in_set_dropD in_set_takeD)
     (metis Un_iff append_take_drop_id set_append)

lemma anilloDe_length [simp]: "length (anilloDe vivos i) = length vivos"
  by (auto simp: anilloDe_def Let_def)

lemma fst_ringColecta:
  "fst (ringColecta an st i)
     = fst st @ [colectaAccion (an ! (i - 1)) (an ! (i mod length an)) (snd st)]"
  by (simp add: ringColecta_def Let_def)

lemma snd_ringColecta:
  "snd (ringColecta an st i)
     = (if nid (an ! (i mod length an)) \<in> set (snd st) then snd st
        else snd st @ [nid (an ! (i mod length an))])"
  by (simp add: ringColecta_def Let_def)

lemma colectaAccion_fields [simp]:
  "leaderId (colectaAccion d h ids) = None"
  "mensaje (colectaAccion d h ids)
     = Some \<lparr>fromId = nid d, toId = nid h, tipo = ring1, payload = Some ids\<rparr>"
  "highlightIds (colectaAccion d h ids) = Some [nid d, nid h]"
  by (simp_all add: colectaAccion_def)

lemma esTipo_colectaAccion [simp]:
  "esTipo ring1 (colectaAccion d h ids)" "\<not> esTipo ring2 (colectaAccion d h ids)"
  by (simp_all add: esTipo_def)

lemma colecta_length:
  "length (fst (foldl (ringColecta an) st js)) = length (fst st) + length js"
  by (induction js arbitrary: st) (simp_all add: fst_ringColecta)

lemma colecta_ring1:
  "length (filter (esTipo ring1) (fst (foldl (ringColecta an) st js)))
     = length (filter (esTipo ring1) (fst st)) + length js"
  by (induction js arbitrary: st) (simp_all add: fst_ringColecta)

lemma colecta_ring2:
  "filter (esTipo ring2) (fst (foldl (ringColecta an) st js)) = filter (esTipo ring2) (fst st)"
  by (induction js arbitrary: st) (simp_all add: fst_ringColecta)

lemma colecta_leaderId:
  "\<forall>a \<in> set (fst st). leaderId a = None \<Longrightarrow>
   \<forall>a \<in> set (fst (foldl (ringColecta an) st js)). leaderId a = None"
proof (induction js arbitrary: st)
  case Nil
  then show ?case by simp
next
  case (Cons j js)
  have "\<forall>a \<in> set (fst (ringColecta an st j)). leaderId a = None"
    using Cons.prems by (simp add: fst_ringColecta)
  from Cons.IH [OF this] show ?case by simp
qed

lemma colecta_ids:
  "set (snd (foldl (ringColecta an) st js))
     = set (snd st) \<union> (\<lambda>j. nid (an ! (j mod length an))) ` set js"
  by (induction js arbitrary: st) (auto simp: snd_ringColecta)

lemma colecta_distinct:
  "distinct (snd st) \<Longrightarrow> distinct (snd (foldl (ringColecta an) st js))"
  by (induction js arbitrary: st) (simp_all add: snd_ringColecta)

lemma vuelta_completa:
  assumes "0 < n"
  shows "(\<lambda>j. j mod n) ` set [1..<Suc n] = {0..<n}"
proof
  show "(\<lambda>j. j mod n) ` set [1..<Suc n] \<subseteq> {0..<n}" using assms by auto
  show "{0..<n} \<subseteq> (\<lambda>j. j mod n) ` set [1..<Suc n]"
  proof
    fix k assume k: "k \<in> {0..<n}"
    show "k \<in> (\<lambda>j. j mod n) ` set [1..<Suc n]"
    proof (cases "k = 0")
      case True
      have "n \<in> set [1..<Suc n]" using assms by simp
      moreover have "n mod n = k" using True by simp
      ultimately show ?thesis by (metis (mono_tags, lifting) image_iff)
    next
      case False
      then have "k \<in> set [1..<Suc n]" using k by simp
      moreover have "k mod n = k" using k by simp
      ultimately show ?thesis by (metis (mono_tags, lifting) image_iff)
    qed
  qed
qed

lemma ringFase1_ids:
  assumes "an \<noteq> []" and "nid ini \<in> nid ` set an"
  shows "set (snd (ringFase1 an ini)) = nid ` set an"
proof -
  have n: "0 < length an" using assms(1) by simp
  have "(\<lambda>j. nid (an ! (j mod length an))) ` set [1..<Suc (length an)]
          = (\<lambda>k. nid (an ! k)) ` ((\<lambda>j. j mod length an) ` set [1..<Suc (length an)])"
    by (simp add: image_image)
  also have "\<dots> = (\<lambda>k. nid (an ! k)) ` {0..<length an}"
    using vuelta_completa [OF n] by simp
  also have "\<dots> = nid ` set an"
  proof -
    have "set an = (\<lambda>k. an ! k) ` {0..<length an}"
      by (auto simp: set_conv_nth)
    then show ?thesis by (metis image_image)
  qed
  finally have img: "(\<lambda>j. nid (an ! (j mod length an))) ` set [1..<Suc (length an)] = nid ` set an" .
  show ?thesis
    unfolding ringFase1_def colecta_ids using assms(2) img by auto
qed

lemma ringAnuncio_fields [simp]:
  "leaderId (ringAnuncio an k l i) = None"
  "esTipo ring2 (ringAnuncio an k l i)" "\<not> esTipo ring1 (ringAnuncio an k l i)"
  by (simp_all add: ringAnuncio_def Let_def esTipo_def)

text \<open>The shape of an accepted run.\<close>

lemma simularRingCompleto_vivo:
  assumes "find (\<lambda>n. nid n = iniciadorId) (vivosDe nodos) = Some iniciador"
  shows "\<exists>a2 k final.
           simularRingCompleto nodos iniciadorId
             = fst (ringFase1 (anilloDe (vivosDe nodos) iniciadorId) iniciador)
               @ [\<lparr>descripcion = ''El mensaje regresa al nodo iniciador ''
                    @ numStr (nid iniciador) @ '' con la lista completa [''
                    @ joinIds (snd (ringFase1 (anilloDe (vivosDe nodos) iniciadorId) iniciador))
                    @ '']. L'' @ i_acute @ ''der elegido: nodo ''
                    @ numStr (Max (set (snd (ringFase1 (anilloDe (vivosDe nodos) iniciadorId) iniciador))))
                    @ ''.'',
                  highlightIds = Some [nid iniciador,
                    Max (set (snd (ringFase1 (anilloDe (vivosDe nodos) iniciadorId) iniciador)))],
                  leaderId = None, mensaje = None\<rparr>, a2]
               @ map (ringAnuncio (anilloDe (vivosDe nodos) iniciadorId) k
                        (Max (set (snd (ringFase1 (anilloDe (vivosDe nodos) iniciadorId) iniciador)))))
                   [1..<Suc (length (vivosDe nodos))]
               @ [final]
           \<and> mensaje a2 = None \<and> mensaje final = None \<and> leaderId a2 = None
           \<and> leaderId final = Some (Some
                 (Max (set (snd (ringFase1 (anilloDe (vivosDe nodos) iniciadorId) iniciador)))))"
proof -
  from assms have "vivosDe nodos \<noteq> []" by (auto dest: find_Some_props)
  then show ?thesis
    using assms by (simp add: simularRingCompleto_def Let_def) blast
qed

lemma ringFase1_length: "length (fst (ringFase1 an ini)) = Suc (length an)"
  by (simp add: ringFase1_def colecta_length del: upt_Suc)

lemma ringFase1_ring1: "length (filter (esTipo ring1) (fst (ringFase1 an ini))) = length an"
  by (simp add: ringFase1_def colecta_ring1 esTipo_def del: upt_Suc)

lemma ringFase1_ring2: "filter (esTipo ring2) (fst (ringFase1 an ini)) = []"
  by (simp add: ringFase1_def colecta_ring2 esTipo_def)

lemma ringFase1_leaderId: "\<forall>a \<in> set (fst (ringFase1 an ini)). leaderId a = None"
  unfolding ringFase1_def by (rule colecta_leaderId) simp

lemma ringFase1_distinct: "distinct (snd (ringFase1 an ini))"
  unfolding ringFase1_def by (rule colecta_distinct) simp

lemma filter_map_all: "(\<And>x. P (f x)) \<Longrightarrow> filter P (map f xs) = map f xs"
  by (induction xs) simp_all

lemma filter_map_none: "(\<And>x. \<not> P (f x)) \<Longrightarrow> filter P (map f xs) = []"
  by (induction xs) simp_all

text \<open>
  Claim C2. For an alive initiator, the accumulator \<open>idsEnMensaje\<close> after the collection
  loop holds exactly the ids of the alive nodes, each once, whichever alive node
  initiates; the action after the loop (\<open>collection complete\<close>, at position \<open>n + 1\<close>)
  names the maximum of the accumulator as leader, and the last action sets \<open>leaderId\<close>
  to it while no earlier action sets a leader.
\<close>

theorem ring_accumulator_is_alive_set:
  assumes "find (\<lambda>n. nid n = iniciadorId) (vivosDe nodos) = Some iniciador"
  shows "set (snd (ringFase1 (anilloDe (vivosDe nodos) iniciadorId) iniciador))
           = nid ` set (vivosDe nodos)
         \<and> distinct (snd (ringFase1 (anilloDe (vivosDe nodos) iniciadorId) iniciador))
         \<and> simularRingCompleto nodos iniciadorId ! Suc (length (vivosDe nodos))
           = \<lparr>descripcion = ''El mensaje regresa al nodo iniciador ''
                @ numStr iniciadorId @ '' con la lista completa [''
                @ joinIds (snd (ringFase1 (anilloDe (vivosDe nodos) iniciadorId) iniciador))
                @ '']. L'' @ i_acute @ ''der elegido: nodo ''
                @ numStr (Max (set (snd (ringFase1 (anilloDe (vivosDe nodos) iniciadorId) iniciador))))
                @ ''.'',
              highlightIds = Some [iniciadorId,
                Max (set (snd (ringFase1 (anilloDe (vivosDe nodos) iniciadorId) iniciador)))],
              leaderId = None, mensaje = None\<rparr>
         \<and> leaderId (last (simularRingCompleto nodos iniciadorId))
           = Some (Some (Max (set (snd (ringFase1 (anilloDe (vivosDe nodos) iniciadorId) iniciador)))))
         \<and> (\<forall>a \<in> set (butlast (simularRingCompleto nodos iniciadorId)). leaderId a = None)"
proof -
  let ?an = "anilloDe (vivosDe nodos) iniciadorId"
  let ?S = "simularRingCompleto nodos iniciadorId"
  from assms have ini: "nid iniciador = iniciadorId" "iniciador \<in> set (vivosDe nodos)"
    by (auto dest: find_Some_props)
  then have ne: "?an \<noteq> []" by (metis anilloDe_set empty_iff empty_set)
  have "nid iniciador \<in> nid ` set ?an" using ini(2) by simp
  from ringFase1_ids [OF ne this]
  have ids: "set (snd (ringFase1 ?an iniciador)) = nid ` set (vivosDe nodos)" by simp
  from simularRingCompleto_vivo [OF assms] obtain a2 k final where
    S: "?S = fst (ringFase1 ?an iniciador)
          @ [\<lparr>descripcion = ''El mensaje regresa al nodo iniciador ''
                    @ numStr (nid iniciador) @ '' con la lista completa [''
                    @ joinIds (snd (ringFase1 ?an iniciador))
                    @ '']. L'' @ i_acute @ ''der elegido: nodo ''
                    @ numStr (Max (set (snd (ringFase1 ?an iniciador))))
                    @ ''.'',
                  highlightIds = Some [nid iniciador, Max (set (snd (ringFase1 ?an iniciador)))],
                  leaderId = None, mensaje = None\<rparr>, a2]
          @ map (ringAnuncio ?an k (Max (set (snd (ringFase1 ?an iniciador)))))
              [1..<Suc (length (vivosDe nodos))]
          @ [final]"
    and a2: "leaderId a2 = None"
    and final: "leaderId final = Some (Some (Max (set (snd (ringFase1 ?an iniciador)))))"
    by blast
  have nth: "?S ! Suc (length (vivosDe nodos))
      = \<lparr>descripcion = ''El mensaje regresa al nodo iniciador ''
                    @ numStr (nid iniciador) @ '' con la lista completa [''
                    @ joinIds (snd (ringFase1 ?an iniciador))
                    @ '']. L'' @ i_acute @ ''der elegido: nodo ''
                    @ numStr (Max (set (snd (ringFase1 ?an iniciador))))
                    @ ''.'',
                  highlightIds = Some [nid iniciador, Max (set (snd (ringFase1 ?an iniciador)))],
                  leaderId = None, mensaje = None\<rparr>"
    unfolding S using ringFase1_length [of ?an iniciador]
    by (simp add: nth_append)
  have lastS: "last ?S = final" unfolding S by simp
  have butl: "\<forall>a \<in> set (butlast ?S). leaderId a = None"
    unfolding S using ringFase1_leaderId [of ?an iniciador] a2
    by (auto simp: butlast_append)
  show ?thesis
    using ids ringFase1_distinct nth lastS final butl ini(1) by simp
qed

theorem ring_accumulator_is_alive_set_witness:
  "set (snd (ringFase1 (anilloDe (vivosDe (nodosDe [13, 47, 22, 99])) 47)
               \<lparr>nid = 47, failed = False, highlighted = False\<rparr>)) = {13, 47, 22, 99}
   \<and> leaderId (last (simularRingCompleto (nodosDe [13, 47, 22, 99]) 47)) = Some (Some 99)"
proof -
  have h: "find (\<lambda>n. nid n = 47) (vivosDe (nodosDe [13, 47, 22, 99]))
             = Some \<lparr>nid = 47, failed = False, highlighted = False\<rparr>"
    by (simp add: nodosDe_def vivosDe_def)
  note t = ring_accumulator_is_alive_set [OF h]
  from t have a: "set (snd (ringFase1 (anilloDe (vivosDe (nodosDe [13, 47, 22, 99])) 47)
               \<lparr>nid = 47, failed = False, highlighted = False\<rparr>))
        = nid ` set (vivosDe (nodosDe [13, 47, 22, 99]))"
    by (rule conjunct1)
  from t have l: "leaderId (last (simularRingCompleto (nodosDe [13, 47, 22, 99]) 47))
        = Some (Some (Max (set (snd (ringFase1 (anilloDe (vivosDe (nodosDe [13, 47, 22, 99])) 47)
               \<lparr>nid = 47, failed = False, highlighted = False\<rparr>)))))"
    by blast
  show ?thesis
    unfolding l a by (simp add: nodosDe_def vivosDe_def)
qed

text \<open>
  Claim C9. An accepted Ring run over \<open>n\<close> alive nodes has exactly \<open>n\<close> actions with a
  \<open>ring1\<close> message and exactly \<open>n\<close> with a \<open>ring2\<close> message; for \<open>n = 1\<close> each phase is one
  message from the single node to itself.
\<close>

theorem ring_message_counts:
  assumes "find (\<lambda>n. nid n = iniciadorId) (vivosDe nodos) = Some iniciador"
  shows "length (filter (esTipo ring1) (simularRingCompleto nodos iniciadorId))
           = length (vivosDe nodos)
         \<and> length (filter (esTipo ring2) (simularRingCompleto nodos iniciadorId))
           = length (vivosDe nodos)
         \<and> (length (vivosDe nodos) = 1 \<longrightarrow>
              map mensaje (filter (esTipo ring1) (simularRingCompleto nodos iniciadorId))
                = [Some \<lparr>fromId = iniciadorId, toId = iniciadorId, tipo = ring1,
                          payload = Some [iniciadorId]\<rparr>]
            \<and> map mensaje (filter (esTipo ring2) (simularRingCompleto nodos iniciadorId))
                = [Some \<lparr>fromId = iniciadorId, toId = iniciadorId, tipo = ring2,
                          payload = None\<rparr>])"
proof -
  let ?an = "anilloDe (vivosDe nodos) iniciadorId"
  let ?S = "simularRingCompleto nodos iniciadorId"
  from simularRingCompleto_vivo [OF assms] obtain a1 a2 k l final where
    S: "?S = fst (ringFase1 ?an iniciador) @ [a1, a2]
          @ map (ringAnuncio ?an k l) [1..<Suc (length (vivosDe nodos))] @ [final]"
    and m: "mensaje a1 = None" "mensaje a2 = None" "mensaje final = None"
    by (metis SimAction.select_convs(4))
  have no: "\<not> esTipo t a1" "\<not> esTipo t a2" "\<not> esTipo t final" for t
    using m by (simp_all add: esTipo_def)
  have c1: "length (filter (esTipo ring1) ?S) = length (vivosDe nodos)"
    unfolding S using ringFase1_ring1 [of ?an iniciador]
    by (simp add: no filter_map_none del: upt_Suc)
  have c2: "length (filter (esTipo ring2) ?S) = length (vivosDe nodos)"
    unfolding S using ringFase1_ring2 [of ?an iniciador]
    by (simp add: no filter_map_all del: upt_Suc)
  have one: "map mensaje (filter (esTipo ring1) ?S)
                = [Some \<lparr>fromId = iniciadorId, toId = iniciadorId, tipo = ring1,
                          payload = Some [iniciadorId]\<rparr>]
            \<and> map mensaje (filter (esTipo ring2) ?S)
                = [Some \<lparr>fromId = iniciadorId, toId = iniciadorId, tipo = ring2,
                          payload = None\<rparr>]"
    if "length (vivosDe nodos) = 1"
  proof -
    from that obtain x where x: "vivosDe nodos = [x]"
      by (cases "vivosDe nodos") auto
    with assms have xi: "nid x = iniciadorId" "iniciador = x"
      by (auto split: if_splits)
    show ?thesis
      using x xi
      by (simp add: simularRingCompleto_def Let_def anilloDe_def indiceDe_def ringFase1_def
          ringColecta_def colectaAccion_def ringAnuncio_def esTipo_def)
  qed
  show ?thesis using c1 c2 one by blast
qed

theorem ring_message_counts_witness:
  "length (filter (esTipo ring1) (simularRingCompleto (nodosDe [13, 47, 22, 99]) 47)) = 4
   \<and> length (filter (esTipo ring2) (simularRingCompleto (nodosDe [13, 47, 22, 99]) 47)) = 4
   \<and> map mensaje (filter (esTipo ring1) (simularRingCompleto (nodosDe [13]) 13))
       = [Some \<lparr>fromId = 13, toId = 13, tipo = ring1, payload = Some [13]\<rparr>]
   \<and> map mensaje (filter (esTipo ring2) (simularRingCompleto (nodosDe [13]) 13))
       = [Some \<lparr>fromId = 13, toId = 13, tipo = ring2, payload = None\<rparr>]"
proof -
  have h4: "find (\<lambda>n. nid n = 47) (vivosDe (nodosDe [13, 47, 22, 99]))
             = Some \<lparr>nid = 47, failed = False, highlighted = False\<rparr>"
    by (simp add: nodosDe_def vivosDe_def)
  have h1: "find (\<lambda>n. nid n = 13) (vivosDe (nodosDe [13]))
             = Some \<lparr>nid = 13, failed = False, highlighted = False\<rparr>"
    by (simp add: nodosDe_def vivosDe_def)
  show ?thesis
    using ring_message_counts [OF h4] ring_message_counts [OF h1]
    by (simp add: nodosDe_def vivosDe_def)
qed


section \<open>Rejected runs\<close>

text \<open>
  Claim C7. A compiler whose precondition fails returns one action that carries a
  description only: Bully and Ring when the initiator is not among the alive nodes
  (\<open>vivos.find\<close> returns nothing), Ring, Cristian and Berkeley when no node is alive.
\<close>

theorem precondition_failure_single_action:
  "(find (\<lambda>n. nid n = iniciadorId) (vivosDe nodos) = None \<longrightarrow>
      simularBully nodos iniciadorId
        = [\<lparr>descripcion = ''El nodo iniciador '' @ numStr iniciadorId @ '' est'' @ a_acute
                            @ '' ca'' @ i_acute @ ''do. No puede iniciar.'',
             highlightIds = None, leaderId = None, mensaje = None\<rparr>]
      \<and> simularRingCompleto nodos iniciadorId
        = [\<lparr>descripcion =
               (if vivosDe nodos = [] then ''No hay nodos activos en el anillo.''
                else ''El nodo iniciador '' @ numStr iniciadorId @ '' est'' @ a_acute
                     @ '' ca'' @ i_acute @ ''do. No puede iniciar.''),
             highlightIds = None, leaderId = None, mensaje = None\<rparr>])
   \<and> (vivosDe nodos = [] \<longrightarrow>
        simularRingCompleto nodos iniciadorId
          = [\<lparr>descripcion = ''No hay nodos activos en el anillo.'', highlightIds = None,
               leaderId = None, mensaje = None\<rparr>])
   \<and> (vivosC relojes = [] \<longrightarrow>
        simularCristian rnd horaStr relojes latenciaMax
          = [\<lparr>cdescripcion = ''No hay nodos activos para sincronizar con Cristian.'',
               chighlightIds = None, cmensaje = None, ajustes = None, rttValues = None\<rparr>]
        \<and> simularBerkeley rnd horaStr relojes latenciaMax
          = [\<lparr>cdescripcion = ''No hay nodos activos para ejecutar Berkeley.'',
               chighlightIds = None, cmensaje = None, ajustes = None, rttValues = None\<rparr>])"
  by (simp add: simularBully_def simularRingCompleto_def simularCristian_def
      simularBerkeley_def accion_def accionC_def Let_def)

theorem precondition_failure_single_action_witness:
  "simularBully [\<lparr>nid = 12, failed = True, highlighted = False\<rparr>] 12
     = [\<lparr>descripcion = ''El nodo iniciador '' @ numStr 12 @ '' est'' @ a_acute @ '' ca'' @ i_acute
                         @ ''do. No puede iniciar.'',
         highlightIds = None, leaderId = None, mensaje = None\<rparr>]
   \<and> simularRingCompleto [\<lparr>nid = 12, failed = True, highlighted = False\<rparr>] 12
     = [\<lparr>descripcion = ''No hay nodos activos en el anillo.'', highlightIds = None,
         leaderId = None, mensaje = None\<rparr>]
   \<and> length (simularCristian (\<lambda>k. 0) (\<lambda>t. [])
        [\<lparr>cid = 0, horaLocal = 1000, offsetInicial = 0, offsetActual = 0, cfailed = True,
          chighlighted = False, role = None, rtt = None\<rparr>] 100) = 1
   \<and> length (simularBerkeley (\<lambda>k. 0) (\<lambda>t. [])
        [\<lparr>cid = 0, horaLocal = 1000, offsetInicial = 0, offsetActual = 0, cfailed = True,
          chighlighted = False, role = None, rtt = None\<rparr>] 100) = 1"
  using precondition_failure_single_action
          [of 12 "[\<lparr>nid = 12, failed = True, highlighted = False\<rparr>]"
              "[\<lparr>cid = 0, horaLocal = 1000, offsetInicial = 0, offsetActual = 0, cfailed = True,
                 chighlighted = False, role = None, rtt = None\<rparr>]" "\<lambda>k. 0" "\<lambda>t. []" 100]
  by (simp add: vivosDe_def vivosC_def simularBully_def accion_def)


section \<open>Verification of the clock compilers\<close>

subsection \<open>Cristian\<close>

lemma length_cristianPasos [simp]: "length (cristianPasos h b n d1 d2) = 3"
  by (simp add: cristianPasos_def Let_def)

lemma length_cristianBucle: "length (cristianBucle rnd h lat b k ns) = 3 * length ns"
  by (induction ns arbitrary: k) simp_all

lemma cristianBucle_nth:
  "j < length ns \<Longrightarrow> i < 3 \<Longrightarrow>
   cristianBucle rnd h lat b k ns ! (3 * j + i)
     = cristianPasos h b (ns ! j) (latencia (rnd (k + 2 * j)) lat)
         (latencia (rnd (Suc (k + 2 * j))) lat) ! i"
proof (induction ns arbitrary: k j)
  case Nil
  then show ?case by simp
next
  case (Cons n ns)
  show ?case
  proof (cases j)
    case 0
    with Cons.prems show ?thesis by (simp add: nth_append)
  next
    case (Suc j')
    with Cons.prems have j': "j' < length ns" by simp
    have "3 * j + i = 3 + (3 * j' + i)" using Suc by simp
    then have "cristianBucle rnd h lat b k (n # ns) ! (3 * j + i)
                 = cristianBucle rnd h lat b (k + 2) ns ! (3 * j' + i)"
      by (simp add: nth_append)
    also have "\<dots> = cristianPasos h b (ns ! j') (latencia (rnd (k + 2 + 2 * j')) lat)
         (latencia (rnd (Suc (k + 2 + 2 * j'))) lat) ! i"
      using Cons.IH [OF j' Cons.prems(2)] .
    finally show ?thesis using Suc by simp
  qed
qed

text \<open>
  Claim C3. In a Cristian run the adjustment action of the \<open>j\<close>-th alive node (at
  position \<open>3j + 3\<close>) records, under the node's id, the offset
  \<open>round(trueTime + d1 - (clientSendTime + (d1 + d2) / 2))\<close> and the round-trip time
  \<open>d1 + d2\<close>, where \<open>d1\<close>, \<open>d2\<close> are the node's outbound and inbound delays,
  \<open>trueTime = horaLocal - offsetInicial\<close> of the first alive node and
  \<open>clientSendTime = horaLocal + offsetActual\<close> of the node; the sequence has
  \<open>3n + 2\<close> actions.
\<close>

theorem cristian_offset_formula:
  assumes "j < length (vivosC nodos)"
  shows "let vivos = vivosC nodos;
             nodo = vivos ! j;
             d1 = latencia (rnd (2 * j)) latenciaMax;
             d2 = latencia (rnd (2 * j + 1)) latenciaMax;
             trueTime = horaLocal (vivos ! 0) - offsetInicial (vivos ! 0);
             clientSendTime = horaLocal nodo + offsetActual nodo;
             paso = simularCristian rnd horaStr nodos latenciaMax ! (3 * j + 3)
         in ajustes paso
              = Some [(cid nodo,
                       round (real_of_int trueTime + real_of_int d1
                              - (real_of_int clientSendTime
                                 + (real_of_int d1 + real_of_int d2) / 2)))]
          \<and> rttValues paso = Some [(cid nodo, d1 + d2)]
          \<and> length (simularCristian rnd horaStr nodos latenciaMax) = 3 * length vivos + 2"
proof -
  from assms obtain r rs where v: "vivosC nodos = r # rs"
    by (cases "vivosC nodos") auto
  let ?b = "horaLocal r - offsetInicial r"
  have S: "simularCristian rnd horaStr nodos latenciaMax
             = accionC (''Servidor de referencia establecido. Su reloj representa el tiempo ''
                       @ comilla @ ''real'' @ comilla @ '' del sistema.'')
               # cristianBucle rnd horaStr latenciaMax ?b 0 (r # rs)
               @ [accionC (''Todos los nodos aplicaron sus ajustes seg'' @ u_acute
                          @ ''n Cristian.'')]"
    by (simp add: simularCristian_def v Let_def)
  have lt: "3 * j + 2 < length (cristianBucle rnd horaStr latenciaMax ?b 0 (r # rs))"
    using assms v by (simp add: length_cristianBucle)
  have "simularCristian rnd horaStr nodos latenciaMax ! (3 * j + 3)
          = cristianBucle rnd horaStr latenciaMax ?b 0 (r # rs) ! (3 * j + 2)"
    unfolding S using lt by (simp add: nth_append del: cristianBucle.simps)
  also have "\<dots> = cristianPasos horaStr ?b ((r # rs) ! j)
                     (latencia (rnd (0 + 2 * j)) latenciaMax)
                     (latencia (rnd (Suc (0 + 2 * j))) latenciaMax) ! 2"
    using assms v by (intro cristianBucle_nth) simp_all
  finally have paso: "simularCristian rnd horaStr nodos latenciaMax ! (3 * j + 3)
      = cristianPasos horaStr ?b ((r # rs) ! j)
          (latencia (rnd (2 * j)) latenciaMax) (latencia (rnd (Suc (2 * j))) latenciaMax) ! 2"
    by simp
  have len: "length (simularCristian rnd horaStr nodos latenciaMax) = 3 * length (r # rs) + 2"
    unfolding S by (simp add: length_cristianBucle del: cristianBucle.simps)
  show ?thesis
    unfolding Let_def paso using len
    by (simp add: v cristianPasos_def Let_def algebra_simps)
qed

theorem cristian_offset_formula_witness:
  "ajustes (simularCristian (\<lambda>k. if k = 2 then 1 / 3 else 2 / 5) (\<lambda>t. [])
        [\<lparr>cid = 0, horaLocal = 1000, offsetInicial = 0, offsetActual = 0, cfailed = False,
          chighlighted = False, role = Some server, rtt = None\<rparr>,
         \<lparr>cid = 1, horaLocal = 3500, offsetInicial = 2500, offsetActual = 0, cfailed = False,
          chighlighted = False, role = Some client, rtt = None\<rparr>] 100 ! 6)
     = Some [(1, - 2503)]
   \<and> rttValues (simularCristian (\<lambda>k. if k = 2 then 1 / 3 else 2 / 5) (\<lambda>t. [])
        [\<lparr>cid = 0, horaLocal = 1000, offsetInicial = 0, offsetActual = 0, cfailed = False,
          chighlighted = False, role = Some server, rtt = None\<rparr>,
         \<lparr>cid = 1, horaLocal = 3500, offsetInicial = 2500, offsetActual = 0, cfailed = False,
          chighlighted = False, role = Some client, rtt = None\<rparr>] 100 ! 6)
     = Some [(1, 73)]"
  using cristian_offset_formula
          [of 1 "[\<lparr>cid = 0, horaLocal = 1000, offsetInicial = 0, offsetActual = 0, cfailed = False,
          chighlighted = False, role = Some server, rtt = None\<rparr>,
         \<lparr>cid = 1, horaLocal = 3500, offsetInicial = 2500, offsetActual = 0, cfailed = False,
          chighlighted = False, role = Some client, rtt = None\<rparr>]"
             "\<lambda>k. if k = 2 then 1 / 3 else 2 / 5" 100 "\<lambda>t. []"]
  by (simp add: vivosC_def Let_def latencia_def round_def)

subsection \<open>Records of numbers\<close>

lemma map_of_registroSet: "map_of (registroSet r k v) = (map_of r)(k \<mapsto> v)"
  by (induction r k v rule: registroSet.induct) (auto simp: fun_upd_twist)

lemma keys_registroSet: "fst ` set (registroSet r k v) = insert k (fst ` set r)"
  by (induction r k v rule: registroSet.induct) auto

lemma length_registroSet_fresh:
  "k \<notin> fst ` set r \<Longrightarrow> length (registroSet r k v) = Suc (length r)"
  by (induction r k v rule: registroSet.induct) auto

lemma sum_registroSet_fresh:
  "k \<notin> fst ` set r \<Longrightarrow> sum_list (map snd (registroSet r k v)) = v + sum_list (map snd r)"
  by (induction r k v rule: registroSet.induct) auto

text \<open>Assigning one value per node, in the order of the list.\<close>

lemma asignar_keys:
  "fst ` set (foldl (\<lambda>r n. registroSet r (key n) (val n)) r0 ns) = fst ` set r0 \<union> key ` set ns"
  by (induction ns arbitrary: r0) (auto simp: keys_registroSet)

lemma asignar_fresh:
  assumes "distinct (map key ns)" and "key ` set ns \<inter> fst ` set r0 = {}"
  shows "length (foldl (\<lambda>r n. registroSet r (key n) (val n)) r0 ns) = length r0 + length ns
       \<and> sum_list (map snd (foldl (\<lambda>r n. registroSet r (key n) (val n)) r0 ns))
           = sum_list (map snd r0) + sum_list (map val ns)"
  using assms
proof (induction ns arbitrary: r0)
  case Nil
  then show ?case by simp
next
  case (Cons n ns)
  from Cons.prems have fresh: "key n \<notin> fst ` set r0" by auto
  have d: "distinct (map key ns)" using Cons.prems(1) by simp
  have disj: "key ` set ns \<inter> fst ` set (registroSet r0 (key n) (val n)) = {}"
    using Cons.prems by (auto simp: keys_registroSet)
  from Cons.IH [OF d disj] show ?case
    by (simp add: length_registroSet_fresh [OF fresh] sum_registroSet_fresh [OF fresh])
qed

lemma asignar_lookup:
  assumes "distinct (map key ns)" and "n \<in> set ns"
  shows "map_of (foldl (\<lambda>r n. registroSet r (key n) (val n)) r0 ns) (key n) = Some (val n)"
  using assms
proof (induction ns arbitrary: r0 rule: rev_induct)
  case Nil
  then show ?case by simp
next
  case (snoc x xs)
  show ?case
  proof (cases "n = x")
    case True
    then show ?thesis by (simp add: map_of_registroSet)
  next
    case False
    with snoc.prems have n: "n \<in> set xs" and d: "distinct (map key xs)" by auto
    from snoc.prems(1) have "key x \<notin> key ` set xs" by simp
    with n have "key n \<noteq> key x" by (metis imageI)
    with snoc.IH [OF d n] show ?thesis by (simp add: map_of_registroSet)
  qed
qed

subsection \<open>Berkeley\<close>

text \<open>The recorded times do not depend on the delays drawn.\<close>

lemma snd_berkeleyEncuesta:
  "snd (berkeleyEncuesta rnd h lat coord k ns st)
     = foldl (\<lambda>r n. registroSet r (cid n) (horaDe n)) (snd st)
         (filter (\<lambda>n. cid n \<noteq> cid coord) ns)"
  by (induction ns arbitrary: k st) (simp_all add: Let_def horaDe_def)

lemma length_fst_berkeleyEncuesta:
  "length (fst (berkeleyEncuesta rnd h lat coord k ns st))
     = length (fst st) + 2 * length (filter (\<lambda>n. cid n \<noteq> cid coord) ns)"
  by (induction ns arbitrary: k st) (simp_all add: Let_def)

lemma snd_berkeleyAjuste:
  "snd (foldl (berkeleyAjuste coord p) st ns)
     = foldl (\<lambda>r n. registroSet r (cid n) (p - horaDe n)) (snd st) ns"
  by (induction ns arbitrary: st) (simp_all add: berkeleyAjuste_def Let_def horaDe_def)

lemma length_fst_berkeleyAjuste:
  "length (fst (foldl (berkeleyAjuste coord p) st ns)) = length (fst st) + length ns"
  by (induction ns arbitrary: st) (simp_all add: berkeleyAjuste_def Let_def)

lemma fst_berkeleyAjuste_prefix:
  "take (length (fst st)) (fst (foldl (berkeleyAjuste coord p) st ns)) = fst st"
proof (induction ns arbitrary: st)
  case Nil
  then show ?case by simp
next
  case (Cons n ns)
  have "take (length (fst st)) (fst (foldl (berkeleyAjuste coord p) (berkeleyAjuste coord p st n) ns))
          = take (length (fst st)) (take (length (fst (berkeleyAjuste coord p st n)))
               (fst (foldl (berkeleyAjuste coord p) (berkeleyAjuste coord p st n) ns)))"
    by (simp add: berkeleyAjuste_def Let_def min_def)
  also have "\<dots> = take (length (fst st)) (fst (berkeleyAjuste coord p st n))"
    by (simp only: Cons.IH)
  also have "\<dots> = fst st" by (simp add: berkeleyAjuste_def Let_def)
  finally show ?case by simp
qed

text \<open>Rounding a mean: the sum of the deviations is at most half a unit per value.\<close>

lemma desviacion_redondeo:
  fixes S :: int and n :: nat
  assumes "0 < n"
  shows "2 * \<bar>int n * round (real_of_int S / real n) - S\<bar> \<le> int n"
proof -
  let ?x = "real_of_int S / real n"
  have "\<bar>of_int (round ?x) - ?x\<bar> \<le> 1 / 2" by (rule of_int_round_abs_le)
  then have "real n * \<bar>of_int (round ?x) - ?x\<bar> \<le> real n * (1 / 2)"
    by (rule mult_left_mono) simp
  moreover have "real n * \<bar>of_int (round ?x) - ?x\<bar>
                   = \<bar>real n * of_int (round ?x) - real_of_int S\<bar>"
  proof -
    have "real n * \<bar>of_int (round ?x) - ?x\<bar> = \<bar>real n * (of_int (round ?x) - ?x)\<bar>"
      by (simp add: abs_mult)
    also have "real n * (of_int (round ?x) - ?x) = real n * of_int (round ?x) - real_of_int S"
      using assms by (simp add: right_diff_distrib)
    finally show ?thesis .
  qed
  ultimately have "2 * \<bar>real n * of_int (round ?x) - real_of_int S\<bar> \<le> real n" by simp
  moreover have "real n * of_int (round ?x) - real_of_int S
                   = real_of_int (int n * round ?x - S)" by simp
  ultimately have "real_of_int (2 * \<bar>int n * round ?x - S\<bar>) \<le> real_of_int (int n)"
    by (simp only: of_int_mult of_int_abs of_int_numeral of_int_of_nat_eq)
  then show ?thesis by (simp only: of_int_le_iff)
qed

lemma sum_list_diff_const:
  "sum_list (map (\<lambda>n. (p::int) - f n) ns) = int (length ns) * p - sum_list (map f ns)"
  by (induction ns) (simp_all add: algebra_simps)

lemma otros_ids:
  assumes "distinct (map cid (coord # resto))" and "n \<in> set resto"
  shows "cid n \<noteq> cid coord"
proof -
  from assms(1) have "cid coord \<notin> cid ` set resto" by simp
  with assms(2) show ?thesis by (metis imageI)
qed

lemma filter_otros:
  assumes "distinct (map cid (coord # resto))"
  shows "filter (\<lambda>n. cid n \<noteq> cid coord) resto = resto"
  using otros_ids [OF assms] by (simp add: filter_id_conv)

lemma berkeley_horas:
  assumes "distinct (map cid (coord # resto))"
  shows "snd (berkeleyFase1 rnd h lat coord (coord # resto))
           = registroSet (foldl (\<lambda>r n. registroSet r (cid n) (horaDe n)) [] resto)
               (cid coord) (horaDe coord)"
proof -
  from filter_otros [OF assms] show ?thesis
    by (simp add: berkeleyFase1_def Let_def snd_berkeleyEncuesta horaDe_def)
qed

lemma berkeley_horas_props:
  assumes "distinct (map cid (coord # resto))"
  shows "length (snd (berkeleyFase1 rnd h lat coord (coord # resto))) = Suc (length resto)
       \<and> sum_list (map snd (snd (berkeleyFase1 rnd h lat coord (coord # resto))))
           = sum_list (map horaDe (coord # resto))
       \<and> (\<forall>n \<in> set (coord # resto).
             map_of (snd (berkeleyFase1 rnd h lat coord (coord # resto))) (cid n)
               = Some (horaDe n))"
proof -
  let ?r = "foldl (\<lambda>r n. registroSet r (cid n) (horaDe n)) [] resto"
  from assms have d: "distinct (map cid resto)" and c: "cid coord \<notin> cid ` set resto"
    by auto
  have keys: "fst ` set ?r = cid ` set resto"
    using asignar_keys [of cid horaDe "[]" resto] by simp
  have fresh: "cid coord \<notin> fst ` set ?r" using c keys by simp
  from asignar_fresh [OF d, of "[]" horaDe]
  have len: "length ?r = length resto"
    and sum: "sum_list (map snd ?r) = sum_list (map horaDe resto)" by simp_all
  have look: "map_of (registroSet ?r (cid coord) (horaDe coord)) (cid n) = Some (horaDe n)"
    if "n \<in> set (coord # resto)" for n
  proof (cases "cid n = cid coord")
    case True
    with that otros_ids [OF assms, of n] have "n = coord" by auto
    then show ?thesis by (simp add: map_of_registroSet)
  next
    case False
    with that have "n \<in> set resto" by auto
    from asignar_lookup [OF d this, of horaDe "[]"] False
    show ?thesis by (simp add: map_of_registroSet)
  qed
  show ?thesis
    unfolding berkeley_horas [OF assms]
    using look by (simp add: length_registroSet_fresh [OF fresh]
        sum_registroSet_fresh [OF fresh] len sum)
qed

text \<open>The shape of an accepted run.\<close>

lemma simularBerkeley_vivo:
  assumes "vivosC nodos = coord # resto"
  shows "simularBerkeley rnd h nodos lat
           = fst (foldl (berkeleyAjuste coord
                   (promedioDe (snd (berkeleyFase1 rnd h lat coord (coord # resto)))))
                 (fst (berkeleyFase1 rnd h lat coord (coord # resto)) @
                  [\<lparr>cdescripcion = emojiGrafica @ '' Coordinador '' @ numStr (cid coord)
                       @ '' recopila ''
                       @ numStr (int (length (snd (berkeleyFase1 rnd h lat coord (coord # resto)))))
                       @ '' horas de los nodos'',
                     chighlightIds = Some [cid coord], cmensaje = None,
                     ajustes = None, rttValues = None\<rparr>,
                   \<lparr>cdescripcion = emojiAbaco @ '' Promedio calculado: ''
                       @ h (promedioDe (snd (berkeleyFase1 rnd h lat coord (coord # resto))))
                       @ '' | ''
                       @ numStr (int (length (snd (berkeleyFase1 rnd h lat coord (coord # resto)))))
                       @ '' nodos'',
                     chighlightIds = Some [cid coord], cmensaje = None,
                     ajustes = None, rttValues = None\<rparr>],
                  [])
                 (coord # resto))
             @ [\<lparr>cdescripcion = emojiHecho @ '' Nodos aplican ajustes seg'' @ u_acute
                    @ ''n Berkeley'',
                  chighlightIds = Some (map cid (coord # resto)), cmensaje = None,
                  ajustes = Some (foldl (\<lambda>r n. registroSet r (cid n)
                     (promedioDe (snd (berkeleyFase1 rnd h lat coord (coord # resto))) - horaDe n))
                     [] (coord # resto)),
                  rttValues = None\<rparr>]"
  using assms
  by (simp add: simularBerkeley_def Let_def snd_berkeleyAjuste del: foldl.simps)

lemma length_fst_berkeleyFase1:
  assumes "distinct (map cid (coord # resto))"
  shows "length (fst (berkeleyFase1 rnd h lat coord (coord # resto))) = Suc (2 * length resto)"
proof -
  from filter_otros [OF assms] show ?thesis
    by (simp add: berkeleyFase1_def Let_def length_fst_berkeleyEncuesta)
qed

lemma foldl_suma: "foldl (\<lambda>a b. a + b) (a::int) xs = a + sum_list xs"
  by (induction xs arbitrary: a) simp_all

text \<open>
  Claim C4. For a non-empty list of alive clocks with pairwise different ids: the
  recorded times are the alive nodes' current times, the coordinator's included; the
  average is the rounded mean of them and the action at position \<open>2n\<close> reports it;
  the last action's \<open>ajustes\<close> gives every alive node the average minus its current
  time; and the adjustments sum to at most \<open>n\<close> in absolute value (indeed at most
  \<open>n / 2\<close>).
\<close>

theorem berkeley_average_and_adjustments:
  assumes "vivosC nodos = coord # resto" and "distinct (map cid (vivosC nodos))"
  shows "let vivos = vivosC nodos;
             n = length vivos;
             horasReportadas = snd (berkeleyFase1 rnd horaStr latenciaMax coord vivos);
             promedio = round (real_of_int (sum_list (map horaDe vivos)) / real n);
             S = simularBerkeley rnd horaStr nodos latenciaMax
         in length horasReportadas = n
          \<and> (\<forall>nodo \<in> set vivos. map_of horasReportadas (cid nodo) = Some (horaDe nodo))
          \<and> promedioDe horasReportadas = promedio
          \<and> S ! (2 * n)
              = \<lparr>cdescripcion = emojiAbaco @ '' Promedio calculado: '' @ horaStr promedio
                    @ '' | '' @ numStr (int n) @ '' nodos'',
                  chighlightIds = Some [cid coord], cmensaje = None,
                  ajustes = None, rttValues = None\<rparr>
          \<and> (\<exists>offsets. ajustes (last S) = Some offsets
                \<and> length offsets = n
                \<and> (\<forall>nodo \<in> set vivos.
                      map_of offsets (cid nodo) = Some (promedio - horaDe nodo))
                \<and> \<bar>sum_list (map snd offsets)\<bar> \<le> int n
                \<and> 2 * \<bar>sum_list (map snd offsets)\<bar> \<le> int n)"
proof -
  let ?vivos = "coord # resto"
  let ?n = "Suc (length resto)"
  let ?horas = "snd (berkeleyFase1 rnd horaStr latenciaMax coord ?vivos)"
  let ?p = "round (real_of_int (sum_list (map horaDe ?vivos)) / real ?n)"
  let ?S = "simularBerkeley rnd horaStr nodos latenciaMax"
  let ?offs = "foldl (\<lambda>r n. registroSet r (cid n) (?p - horaDe n)) [] ?vivos"
  from assms have d: "distinct (map cid ?vivos)" by simp
  note hp = berkeley_horas_props [OF d, of rnd horaStr latenciaMax]
  from hp have hlen: "length ?horas = ?n" by blast
  from hp have hsum: "sum_list (map snd ?horas) = sum_list (map horaDe ?vivos)" by blast
  from hp have hlook: "\<forall>n \<in> set ?vivos. map_of ?horas (cid n) = Some (horaDe n)" by blast
  have prom: "promedioDe ?horas = ?p"
    by (simp add: promedioDe_def Let_def foldl_suma hsum hlen)
  note S = simularBerkeley_vivo [OF assms(1), of rnd horaStr latenciaMax]
  have lastS: "ajustes (last ?S) = Some ?offs"
    unfolding S prom by simp
  let ?pre = "fst (berkeleyFase1 rnd horaStr latenciaMax coord ?vivos)"
  have nth: "?S ! (2 * ?n)
      = \<lparr>cdescripcion = emojiAbaco @ '' Promedio calculado: '' @ horaStr ?p
            @ '' | '' @ numStr (int ?n) @ '' nodos'',
          chighlightIds = Some [cid coord], cmensaje = None,
          ajustes = None, rttValues = None\<rparr>"
  proof -
    let ?st = "(?pre @
                  [\<lparr>cdescripcion = emojiGrafica @ '' Coordinador '' @ numStr (cid coord)
                       @ '' recopila '' @ numStr (int ?n) @ '' horas de los nodos'',
                     chighlightIds = Some [cid coord], cmensaje = None,
                     ajustes = None, rttValues = None\<rparr>,
                   \<lparr>cdescripcion = emojiAbaco @ '' Promedio calculado: '' @ horaStr ?p
                       @ '' | '' @ numStr (int ?n) @ '' nodos'',
                     chighlightIds = Some [cid coord], cmensaje = None,
                     ajustes = None, rttValues = None\<rparr>],
                  [] :: registro)"
    let ?F = "fst (foldl (berkeleyAjuste coord ?p) ?st ?vivos)"
    have lpre: "length ?pre = Suc (2 * length resto)"
      by (rule length_fst_berkeleyFase1 [OF d])
    have Seq: "?S = ?F @ [\<lparr>cdescripcion = emojiHecho @ '' Nodos aplican ajustes seg'' @ u_acute
                    @ ''n Berkeley'',
                  chighlightIds = Some (map cid ?vivos), cmensaje = None,
                  ajustes = Some ?offs, rttValues = None\<rparr>]"
      unfolding S prom hlen by (simp del: foldl.simps)
    have lF: "length ?F = length (fst ?st) + length ?vivos"
      by (rule length_fst_berkeleyAjuste)
    have lst: "length (fst ?st) = 2 * ?n + 1" using lpre by simp
    have "?S ! (2 * ?n) = ?F ! (2 * ?n)"
      unfolding Seq using lF lst by (simp add: nth_append del: foldl.simps)
    also have "\<dots> = take (length (fst ?st)) ?F ! (2 * ?n)"
      using lst by (simp del: foldl.simps)
    also have "take (length (fst ?st)) ?F = fst ?st"
      by (rule fst_berkeleyAjuste_prefix)
    also have "fst ?st ! (2 * ?n) = \<lparr>cdescripcion = emojiAbaco @ '' Promedio calculado: '' @ horaStr ?p
            @ '' | '' @ numStr (int ?n) @ '' nodos'',
          chighlightIds = Some [cid coord], cmensaje = None,
          ajustes = None, rttValues = None\<rparr>"
      using lpre by (simp add: nth_append)
    finally show ?thesis .
  qed
  from asignar_fresh [OF d, of "[]" "\<lambda>n. ?p - horaDe n"]
  have olen: "length ?offs = ?n"
    and osum: "sum_list (map snd ?offs) = sum_list (map (\<lambda>n. ?p - horaDe n) ?vivos)"
    by simp_all
  have olook: "\<forall>n \<in> set ?vivos. map_of ?offs (cid n) = Some (?p - horaDe n)"
    using asignar_lookup [OF d, of _ "\<lambda>n. ?p - horaDe n" "[]"] by blast
  have "sum_list (map snd ?offs) = int ?n * ?p - sum_list (map horaDe ?vivos)"
    unfolding osum by (simp only: sum_list_diff_const length_Cons)
  with desviacion_redondeo [of ?n "sum_list (map horaDe ?vivos)"]
  have b2: "2 * \<bar>sum_list (map snd ?offs)\<bar> \<le> int ?n" by simp
  then have b1: "\<bar>sum_list (map snd ?offs)\<bar> \<le> int ?n" by linarith
  show ?thesis
    unfolding Let_def assms(1)
    unfolding length_Cons
    apply (intro conjI)
    subgoal by (rule hlen)
    subgoal by (rule hlook)
    subgoal by (rule prom)
    subgoal by (rule nth)
    subgoal
      apply (rule exI [of _ ?offs])
      apply (intro conjI)
      subgoal by (rule lastS)
      subgoal by (rule olen)
      subgoal by (rule olook)
      subgoal by (rule b1)
      subgoal by (rule b2)
      done
    done
qed

theorem berkeley_average_and_adjustments_witness:
  "promedioDe (snd (berkeleyFase1 (\<lambda>k. 1 / 3) (\<lambda>t. []) 100
        \<lparr>cid = 0, horaLocal = 1000, offsetInicial = 0, offsetActual = 0, cfailed = False,
          chighlighted = False, role = Some coordinator, rtt = None\<rparr>
        [\<lparr>cid = 0, horaLocal = 1000, offsetInicial = 0, offsetActual = 0, cfailed = False,
          chighlighted = False, role = Some coordinator, rtt = None\<rparr>,
         \<lparr>cid = 1, horaLocal = 2500, offsetInicial = 1500, offsetActual = 0, cfailed = False,
          chighlighted = False, role = Some client, rtt = None\<rparr>,
         \<lparr>cid = 2, horaLocal = - 19, offsetInicial = - 1019, offsetActual = 0, cfailed = False,
          chighlighted = False, role = Some client, rtt = None\<rparr>])) = 1160
   \<and> (\<exists>offsets. ajustes (last (simularBerkeley (\<lambda>k. 1 / 3) (\<lambda>t. [])
        [\<lparr>cid = 0, horaLocal = 1000, offsetInicial = 0, offsetActual = 0, cfailed = False,
          chighlighted = False, role = Some coordinator, rtt = None\<rparr>,
         \<lparr>cid = 1, horaLocal = 2500, offsetInicial = 1500, offsetActual = 0, cfailed = False,
          chighlighted = False, role = Some client, rtt = None\<rparr>,
         \<lparr>cid = 2, horaLocal = - 19, offsetInicial = - 1019, offsetActual = 0, cfailed = False,
          chighlighted = False, role = Some client, rtt = None\<rparr>] 100)) = Some offsets
        \<and> map_of offsets 0 = Some 160 \<and> map_of offsets 1 = Some (- 1340)
        \<and> map_of offsets 2 = Some 1179 \<and> \<bar>sum_list (map snd offsets)\<bar> \<le> 3)"
  using berkeley_average_and_adjustments
          [of "[\<lparr>cid = 0, horaLocal = 1000, offsetInicial = 0, offsetActual = 0, cfailed = False,
          chighlighted = False, role = Some coordinator, rtt = None\<rparr>,
         \<lparr>cid = 1, horaLocal = 2500, offsetInicial = 1500, offsetActual = 0, cfailed = False,
          chighlighted = False, role = Some client, rtt = None\<rparr>,
         \<lparr>cid = 2, horaLocal = - 19, offsetInicial = - 1019, offsetActual = 0, cfailed = False,
          chighlighted = False, role = Some client, rtt = None\<rparr>]"
          "\<lparr>cid = 0, horaLocal = 1000, offsetInicial = 0, offsetActual = 0, cfailed = False,
          chighlighted = False, role = Some coordinator, rtt = None\<rparr>"
          "[\<lparr>cid = 1, horaLocal = 2500, offsetInicial = 1500, offsetActual = 0, cfailed = False,
          chighlighted = False, role = Some client, rtt = None\<rparr>,
         \<lparr>cid = 2, horaLocal = - 19, offsetInicial = - 1019, offsetActual = 0, cfailed = False,
          chighlighted = False, role = Some client, rtt = None\<rparr>]"
          "\<lambda>k. 1 / 3" "\<lambda>t. []" 100]
  by (simp add: vivosC_def Let_def horaDe_def round_def) blast

subsection \<open>The delays drawn by Berkeley\<close>

lemma encuesta_mismos_resultados:
  assumes "snd st1 = snd st2"
    and "map sinDescripcion (fst st1) = map sinDescripcion (fst st2)"
    and "filter (\<lambda>a. \<not> esTipoC berkeley_poll a) (fst st1)
           = filter (\<lambda>a. \<not> esTipoC berkeley_poll a) (fst st2)"
  shows "snd (berkeleyEncuesta rnd1 h lat coord k1 ns st1)
           = snd (berkeleyEncuesta rnd2 h lat coord k2 ns st2)
       \<and> map sinDescripcion (fst (berkeleyEncuesta rnd1 h lat coord k1 ns st1))
           = map sinDescripcion (fst (berkeleyEncuesta rnd2 h lat coord k2 ns st2))
       \<and> filter (\<lambda>a. \<not> esTipoC berkeley_poll a) (fst (berkeleyEncuesta rnd1 h lat coord k1 ns st1))
           = filter (\<lambda>a. \<not> esTipoC berkeley_poll a) (fst (berkeleyEncuesta rnd2 h lat coord k2 ns st2))"
  using assms
proof (induction ns arbitrary: k1 k2 st1 st2)
  case Nil
  then show ?case by simp
next
  case (Cons n ns)
  show ?case
  proof (cases "cid n = cid coord")
    case True
    with Cons.IH [OF Cons.prems] show ?thesis by simp
  next
    case False
    show ?thesis
      using False Cons.prems
      by (simp add: Let_def del: One_nat_def)
         (rule Cons.IH; simp add: sinDescripcion_def esTipoC_def)
  qed
qed

lemma ajuste_mismos_resultados:
  assumes "snd st1 = snd st2"
    and "map sinDescripcion (fst st1) = map sinDescripcion (fst st2)"
    and "filter (\<lambda>a. \<not> esTipoC berkeley_poll a) (fst st1)
           = filter (\<lambda>a. \<not> esTipoC berkeley_poll a) (fst st2)"
  shows "snd (foldl (berkeleyAjuste coord p) st1 ns) = snd (foldl (berkeleyAjuste coord p) st2 ns)
       \<and> map sinDescripcion (fst (foldl (berkeleyAjuste coord p) st1 ns))
           = map sinDescripcion (fst (foldl (berkeleyAjuste coord p) st2 ns))
       \<and> filter (\<lambda>a. \<not> esTipoC berkeley_poll a) (fst (foldl (berkeleyAjuste coord p) st1 ns))
           = filter (\<lambda>a. \<not> esTipoC berkeley_poll a) (fst (foldl (berkeleyAjuste coord p) st2 ns))"
  using assms
proof (induction ns arbitrary: st1 st2)
  case Nil
  then show ?case by simp
next
  case (Cons n ns)
  show ?case
    using Cons.prems
    by (simp del: One_nat_def) (rule Cons.IH; simp add: berkeleyAjuste_def Let_def)
qed

lemma fase1_mismos_resultados:
  "snd (berkeleyFase1 rnd1 h lat coord vivos) = snd (berkeleyFase1 rnd2 h lat coord vivos)
   \<and> map sinDescripcion (fst (berkeleyFase1 rnd1 h lat coord vivos))
       = map sinDescripcion (fst (berkeleyFase1 rnd2 h lat coord vivos))
   \<and> filter (\<lambda>a. \<not> esTipoC berkeley_poll a) (fst (berkeleyFase1 rnd1 h lat coord vivos))
       = filter (\<lambda>a. \<not> esTipoC berkeley_poll a) (fst (berkeleyFase1 rnd2 h lat coord vivos))"
proof -
  let ?st = "([\<lparr>cdescripcion = emojiCorona @ '' Nodo '' @ numStr (cid coord) @ '' act''
                       @ u_acute @ ''a como coordinador del algoritmo Berkeley'',
                     chighlightIds = Some [cid coord], cmensaje = None,
                     ajustes = None, rttValues = None\<rparr>], [] :: registro)"
  have "snd (berkeleyEncuesta rnd1 h lat coord 0 vivos ?st)
           = snd (berkeleyEncuesta rnd2 h lat coord 0 vivos ?st)
       \<and> map sinDescripcion (fst (berkeleyEncuesta rnd1 h lat coord 0 vivos ?st))
           = map sinDescripcion (fst (berkeleyEncuesta rnd2 h lat coord 0 vivos ?st))
       \<and> filter (\<lambda>a. \<not> esTipoC berkeley_poll a) (fst (berkeleyEncuesta rnd1 h lat coord 0 vivos ?st))
           = filter (\<lambda>a. \<not> esTipoC berkeley_poll a) (fst (berkeleyEncuesta rnd2 h lat coord 0 vivos ?st))"
    by (rule encuesta_mismos_resultados) simp_all
  then show ?thesis by (simp add: berkeleyFase1_def Let_def)
qed

text \<open>
  Claim C10. Two Berkeley runs on the same nodes and latency bound that draw different
  random values agree on everything but description strings: the sequences are equal
  once descriptions are blanked, the actions other than the polls are equal as they
  are (so the reported average is), the \<open>ajustes\<close> of the last action are equal, and
  so is the computed average.
\<close>

theorem berkeley_delays_only_in_descriptions:
  "map sinDescripcion (simularBerkeley rnd1 horaStr nodos latenciaMax)
     = map sinDescripcion (simularBerkeley rnd2 horaStr nodos latenciaMax)
   \<and> filter (\<lambda>a. \<not> esTipoC berkeley_poll a) (simularBerkeley rnd1 horaStr nodos latenciaMax)
     = filter (\<lambda>a. \<not> esTipoC berkeley_poll a) (simularBerkeley rnd2 horaStr nodos latenciaMax)
   \<and> ajustes (last (simularBerkeley rnd1 horaStr nodos latenciaMax))
     = ajustes (last (simularBerkeley rnd2 horaStr nodos latenciaMax))
   \<and> promedioDe (snd (berkeleyFase1 rnd1 horaStr latenciaMax coord vivos))
     = promedioDe (snd (berkeleyFase1 rnd2 horaStr latenciaMax coord vivos))"
proof -
  have prom: "promedioDe (snd (berkeleyFase1 rnd1 horaStr latenciaMax c vs))
     = promedioDe (snd (berkeleyFase1 rnd2 horaStr latenciaMax c vs))" for c vs
    using fase1_mismos_resultados [of rnd1 horaStr latenciaMax c vs rnd2] by simp
  have main: "map sinDescripcion (simularBerkeley rnd1 horaStr nodos latenciaMax)
     = map sinDescripcion (simularBerkeley rnd2 horaStr nodos latenciaMax)
   \<and> filter (\<lambda>a. \<not> esTipoC berkeley_poll a) (simularBerkeley rnd1 horaStr nodos latenciaMax)
     = filter (\<lambda>a. \<not> esTipoC berkeley_poll a) (simularBerkeley rnd2 horaStr nodos latenciaMax)
   \<and> ajustes (last (simularBerkeley rnd1 horaStr nodos latenciaMax))
     = ajustes (last (simularBerkeley rnd2 horaStr nodos latenciaMax))"
  proof (cases "vivosC nodos")
    case Nil
    then show ?thesis by (simp add: simularBerkeley_def)
  next
    case (Cons c rs)
    let ?f1 = "berkeleyFase1 rnd1 horaStr latenciaMax c (c # rs)"
    let ?f2 = "berkeleyFase1 rnd2 horaStr latenciaMax c (c # rs)"
    let ?p = "promedioDe (snd ?f1)"
    let ?mid = "\<lambda>f. [\<lparr>cdescripcion = emojiGrafica @ '' Coordinador '' @ numStr (cid c)
                       @ '' recopila '' @ numStr (int (length (snd f)))
                       @ '' horas de los nodos'',
                     chighlightIds = Some [cid c], cmensaje = None,
                     ajustes = None, rttValues = None\<rparr>,
                   \<lparr>cdescripcion = emojiAbaco @ '' Promedio calculado: '' @ horaStr (promedioDe (snd f))
                       @ '' | '' @ numStr (int (length (snd f))) @ '' nodos'',
                     chighlightIds = Some [cid c], cmensaje = None,
                     ajustes = None, rttValues = None\<rparr>]"
    note f = fase1_mismos_resultados [of rnd1 horaStr latenciaMax c "c # rs" rnd2]
    from f have s: "snd ?f1 = snd ?f2" by blast
    have rel: "snd (foldl (berkeleyAjuste c ?p) (fst ?f1 @ ?mid ?f1, []) (c # rs))
                = snd (foldl (berkeleyAjuste c ?p) (fst ?f2 @ ?mid ?f2, []) (c # rs))
       \<and> map sinDescripcion (fst (foldl (berkeleyAjuste c ?p) (fst ?f1 @ ?mid ?f1, []) (c # rs)))
           = map sinDescripcion (fst (foldl (berkeleyAjuste c ?p) (fst ?f2 @ ?mid ?f2, []) (c # rs)))
       \<and> filter (\<lambda>a. \<not> esTipoC berkeley_poll a) (fst (foldl (berkeleyAjuste c ?p) (fst ?f1 @ ?mid ?f1, []) (c # rs)))
           = filter (\<lambda>a. \<not> esTipoC berkeley_poll a) (fst (foldl (berkeleyAjuste c ?p) (fst ?f2 @ ?mid ?f2, []) (c # rs)))"
      using f by (intro ajuste_mismos_resultados) (simp_all add: s)
    have S1: "simularBerkeley rnd1 horaStr nodos latenciaMax
        = fst (foldl (berkeleyAjuste c ?p) (fst ?f1 @ ?mid ?f1, []) (c # rs))
          @ [\<lparr>cdescripcion = emojiHecho @ '' Nodos aplican ajustes seg'' @ u_acute
                    @ ''n Berkeley'',
                  chighlightIds = Some (map cid (c # rs)), cmensaje = None,
                  ajustes = Some (snd (foldl (berkeleyAjuste c ?p) (fst ?f1 @ ?mid ?f1, []) (c # rs))),
                  rttValues = None\<rparr>]"
      by (simp add: simularBerkeley_def Cons Let_def del: foldl.simps)
    have S2: "simularBerkeley rnd2 horaStr nodos latenciaMax
        = fst (foldl (berkeleyAjuste c ?p) (fst ?f2 @ ?mid ?f2, []) (c # rs))
          @ [\<lparr>cdescripcion = emojiHecho @ '' Nodos aplican ajustes seg'' @ u_acute
                    @ ''n Berkeley'',
                  chighlightIds = Some (map cid (c # rs)), cmensaje = None,
                  ajustes = Some (snd (foldl (berkeleyAjuste c ?p) (fst ?f2 @ ?mid ?f2, []) (c # rs))),
                  rttValues = None\<rparr>]"
      by (simp add: simularBerkeley_def Cons Let_def s del: foldl.simps)
    show ?thesis
      unfolding S1 S2 using rel by (simp del: foldl.simps)
  qed
  from main prom show ?thesis by blast
qed

theorem berkeley_delays_only_in_descriptions_witness:
  "ajustes (last (simularBerkeley (\<lambda>k. 0) (\<lambda>t. [])
        [\<lparr>cid = 0, horaLocal = 1000, offsetInicial = 0, offsetActual = 0, cfailed = False,
          chighlighted = False, role = Some coordinator, rtt = None\<rparr>,
         \<lparr>cid = 1, horaLocal = 2500, offsetInicial = 1500, offsetActual = 0, cfailed = False,
          chighlighted = False, role = Some client, rtt = None\<rparr>] 100))
   = ajustes (last (simularBerkeley (\<lambda>k. 9 / 10) (\<lambda>t. [])
        [\<lparr>cid = 0, horaLocal = 1000, offsetInicial = 0, offsetActual = 0, cfailed = False,
          chighlighted = False, role = Some coordinator, rtt = None\<rparr>,
         \<lparr>cid = 1, horaLocal = 2500, offsetInicial = 1500, offsetActual = 0, cfailed = False,
          chighlighted = False, role = Some client, rtt = None\<rparr>] 100))"
  using berkeley_delays_only_in_descriptions
          [of "\<lambda>k. 0" "\<lambda>t. []"
              "[\<lparr>cid = 0, horaLocal = 1000, offsetInicial = 0, offsetActual = 0, cfailed = False,
          chighlighted = False, role = Some coordinator, rtt = None\<rparr>,
         \<lparr>cid = 1, horaLocal = 2500, offsetInicial = 1500, offsetActual = 0, cfailed = False,
          chighlighted = False, role = Some client, rtt = None\<rparr>]" 100 "\<lambda>k. 9 / 10"]
  by blast


subsection \<open>The clock lists the compilers receive\<close>

text \<open>
  The clock compilers are called on the node list of the component. That list comes
  from \<open>generarRelojes\<close>, which numbers the nodes \<open>0, 1, \<dots>\<close> and fails none, and no
  event changes an id or fails a node: in every state the simulator can reach all
  nodes are alive and their ids are pairwise different.
\<close>

lemma relojesOk_generarRelojes: "relojesOk (generarRelojes now rnd cantidad alg)"
proof -
  have ids: "map cid (generarRelojes now rnd cantidad alg)
               = 0 # map int [1..<Suc (nat cantidad)]"
    by (simp add: generarRelojes_def Let_def comp_def del: upt_Suc)
  have "distinct (0 # map int [1..<Suc (nat cantidad)])"
    by (auto simp: distinct_map inj_on_def simp del: upt_Suc)
  moreover have "list_all (\<lambda>n. \<not> cfailed n) (generarRelojes now rnd cantidad alg)"
    by (simp add: generarRelojes_def Let_def list_all_iff del: upt_Suc)
  ultimately show ?thesis by (simp add: relojesOk_def ids del: upt_Suc)
qed

lemma relojesOk_cong:
  "map cid ms = map cid ns \<Longrightarrow> map cfailed ms = map cfailed ns \<Longrightarrow> relojesOk ns
   \<Longrightarrow> relojesOk ms"
proof -
  assume a: "map cid ms = map cid ns" and b: "map cfailed ms = map cfailed ns"
    and ok: "relojesOk ns"
  have "list_all (\<lambda>n. \<not> cfailed n) ms = list_all (\<lambda>f. \<not> f) (map cfailed ms)"
    by (simp add: list_all_iff)
  also have "\<dots> = list_all (\<lambda>f. \<not> f) (map cfailed ns)" by (simp only: b)
  also have "\<dots> = list_all (\<lambda>n. \<not> cfailed n) ns" by (simp add: list_all_iff)
  finally show ?thesis using ok a by (simp add: relojesOk_def)
qed

lemma ids_aplicarC [simp]:
  "map cid (nodosC (aplicarC a s)) = map cid (nodosC s)"
  "map cfailed (nodosC (aplicarC a s)) = map cfailed (nodosC s)"
  by (cases "ajustes a"; cases "rttValues a"; cases "chighlightIds a";
      simp add: aplicarC_def Let_def presente_def comp_def)+

lemma relojesOk_eventoC:
  assumes "relojesOk (nodosC s)"
  shows "relojesOk (nodosC (eventoC h e s))"
proof (cases e)
  case (GenerarRelojes now rnd)
  then show ?thesis
    using assms by (simp add: handleGenerarRelojes_def relojesOk_generarRelojes)
next
  case (Sincronizar rnd)
  have "map cid (nodosC (handleSincronizar rnd h s)) = map cid (nodosC s)"
    "map cfailed (nodosC (handleSincronizar rnd h s)) = map cfailed (nodosC s)"
    by (simp_all add: handleSincronizar_def Let_def comp_def)
  from relojesOk_cong [OF this assms] show ?thesis using Sincronizar by simp
next
  case PasoC
  have "map cid (nodosC (avanzarPasoC s)) = map cid (nodosC s)"
    "map cfailed (nodosC (avanzarPasoC s)) = map cfailed (nodosC s)"
    by (simp_all add: avanzarPasoC_def)
  from relojesOk_cong [OF this assms] show ?thesis using PasoC by simp
next
  case TemporizadorC
  have "map cid (nodosC (temporizadorC s)) = map cid (nodosC s)"
    "map cfailed (nodosC (temporizadorC s)) = map cfailed (nodosC s)"
    by (simp_all add: temporizadorC_def avanzarPasoC_def)
  from relojesOk_cong [OF this assms] show ?thesis using TemporizadorC by simp
next
  case Tic
  have "map cid (nodosC (eventoC h Tic s)) = map cid (nodosC s)"
    "map cfailed (nodosC (eventoC h Tic s)) = map cfailed (nodosC s)"
    by (simp_all add: comp_def)
  from relojesOk_cong [OF this assms] show ?thesis using Tic by simp
qed (use assms in \<open>simp_all split: if_splits\<close>)

lemma relojesOk_alcanzable: "relojesOk (nodosC (correrC h es estadoInicialC))"
proof (induction es rule: rev_induct)
  case Nil
  show ?case by (simp add: correrC_def estadoInicialC_def relojesOk_def)
next
  case (snoc e es)
  from relojesOk_eventoC [OF snoc.IH, of h e] show ?case
    by (simp add: correrC_def)
qed

lemma relojesOk_vivos:
  "relojesOk ns \<Longrightarrow> vivosC ns = ns \<and> distinct (map cid (vivosC ns))"
  by (simp add: relojesOk_def vivosC_def list_all_iff filter_id_conv)

section \<open>Verification of the playback controllers\<close>

subsection \<open>What changes the leader and the offsets\<close>

lemma leaderIdE_renderE [simp]: "leaderIdE (renderE s) = leaderIdE s"
  by (simp add: renderE_def)

lemma pasoIndexE_renderE [simp]: "pasoIndexE (renderE s) = pasoIndexE s"
  by (simp add: renderE_def)

lemma aplicarE_leader:
  "leaderIdE (aplicarE acc s) = (case leaderId acc of None \<Rightarrow> leaderIdE s | Some l \<Rightarrow> l)"
  by (simp add: aplicarE_def Let_def split: option.splits)

lemma aplicarE_pasoIndex [simp]: "pasoIndexE (aplicarE acc s) = pasoIndexE s"
  by (simp add: aplicarE_def Let_def split: option.splits)

lemma avanzarPaso_leader:
  "leaderIdE (avanzarPaso s) \<noteq> leaderIdE s \<Longrightarrow>
   pasoIndexE s < length (accionesPaso s)
   \<and> leaderId (accionesPaso s ! pasoIndexE s) = Some (leaderIdE (avanzarPaso s))
   \<and> pasoIndexE (avanzarPaso s) = Suc (pasoIndexE s)"
  by (auto simp: avanzarPaso_def Let_def aplicarE_leader split: if_splits option.splits)

lemma toggleFallarNodo_leader:
  "leaderIdE (toggleFallarNodo i s)
     = (if leaderIdE s = Some i
           \<and> \<not> (\<exists>n. find (\<lambda>n. nid n = i) (nodosE s) = Some n \<and> failed n)
        then None else leaderIdE s)"
  by (auto simp: toggleFallarNodo_def Let_def split: option.splits)

lemma seleccionarIniciador_leader [simp]:
  "leaderIdE (seleccionarIniciador i s) = leaderIdE s"
  by (simp add: seleccionarIniciador_def)

lemma handleIniciarEleccion_leader [simp]:
  "leaderIdE (handleIniciarEleccion s) = leaderIdE s"
  by (simp add: handleIniciarEleccion_def Let_def split: option.splits)

lemma handleGenerarNodos_leader:
  "leaderIdE (handleGenerarNodos ids s)
     = (if numNodosE s < 3 \<or> numNodosE s > 15 then leaderIdE s else None)"
  by (simp add: handleGenerarNodos_def)

lemma leader_eventoE:
  assumes ch: "leaderIdE (eventoE e s) \<noteq> leaderIdE s"
  shows "((e = Paso \<or> e = Temporizador)
        \<and> pasoIndexE s < length (accionesPaso s)
        \<and> leaderId (accionesPaso s ! pasoIndexE s) = Some (leaderIdE (eventoE e s))
        \<and> pasoIndexE (eventoE e s) = Suc (pasoIndexE s))
   \<or> (\<exists>i. e = ClickNodo i \<and> \<not> modoIniciador s \<and> leaderIdE s = Some i
          \<and> \<not> (\<exists>n. find (\<lambda>n. nid n = i) (nodosE s) = Some n \<and> failed n)
          \<and> leaderIdE (eventoE e s) = None)
   \<or> (((\<exists>ids. e = GenerarNodos ids) \<or> e = Reiniciar) \<and> leaderIdE (eventoE e s) = None)"
proof (cases e)
  case (GenerarNodos ids)
  with ch show ?thesis
    by (auto simp: eventoE_def handleGenerarNodos_leader split: if_splits)
next
  case (ClickNodo i)
  with ch show ?thesis
    by (auto simp: eventoE_def toggleFallarNodo_leader split: if_splits)
next
  case Paso
  with ch have "leaderIdE (avanzarPaso s) \<noteq> leaderIdE s"
    and e: "eventoE e s = renderE (avanzarPaso s)"
    by (auto simp: eventoE_def handlePaso_def split: if_splits)
  from avanzarPaso_leader [OF this(1)] show ?thesis
    using Paso e by simp
next
  case Temporizador
  with ch have "leaderIdE (avanzarPaso s) \<noteq> leaderIdE s"
    and e: "eventoE e s = renderE (avanzarPaso s)"
    by (auto simp: eventoE_def temporizadorE_def split: if_splits)
  from avanzarPaso_leader [OF this(1)] show ?thesis
    using Temporizador e by simp
qed (use ch in \<open>auto simp: eventoE_def reiniciar_def handlePlay_def handlePause_def
      split: if_splits\<close>)

lemma offsets_aplicarC:
  "map offsetActual (nodosC (aplicarC acc s))
     = (case ajustes acc of
          None \<Rightarrow> map offsetActual (nodosC s)
        | Some aj \<Rightarrow> map (\<lambda>n. case map_of aj (cid n) of Some v \<Rightarrow> v | None \<Rightarrow> offsetActual n)
                       (nodosC s))"
  by (cases "ajustes acc"; cases "rttValues acc"; cases "chighlightIds acc")
     (simp_all add: aplicarC_def Let_def presente_def comp_def split: option.splits)

lemma pasoIndexC_aplicarC [simp]: "pasoIndexC (aplicarC acc s) = pasoIndexC s"
  by (cases "ajustes acc"; cases "rttValues acc"; cases "chighlightIds acc")
     (simp_all add: aplicarC_def Let_def presente_def)

lemma avanzarPasoC_offsets:
  "map offsetActual (nodosC (avanzarPasoC s)) \<noteq> map offsetActual (nodosC s) \<Longrightarrow>
   pasoIndexC s < length (accionesC s)
   \<and> (\<exists>aj. ajustes (accionesC s ! pasoIndexC s) = Some aj
         \<and> map offsetActual (nodosC (avanzarPasoC s))
             = map (\<lambda>n. case map_of aj (cid n) of Some v \<Rightarrow> v | None \<Rightarrow> offsetActual n)
                 (nodosC s))
   \<and> pasoIndexC (avanzarPasoC s) = Suc (pasoIndexC s)"
  by (auto simp: avanzarPasoC_def offsets_aplicarC split: if_splits option.splits)

lemma handleSincronizar_offsets [simp]:
  "map offsetActual (nodosC (handleSincronizar rnd h s)) = map offsetActual (nodosC s)"
  by (simp add: handleSincronizar_def Let_def comp_def)

lemma offsets_eventoC:
  assumes ch: "map offsetActual (nodosC (eventoC h e s)) \<noteq> map offsetActual (nodosC s)"
  shows "((e = PasoC \<or> e = TemporizadorC)
        \<and> pasoIndexC s < length (accionesC s)
        \<and> (\<exists>aj. ajustes (accionesC s ! pasoIndexC s) = Some aj
              \<and> map offsetActual (nodosC (eventoC h e s))
                  = map (\<lambda>n. case map_of aj (cid n) of Some v \<Rightarrow> v | None \<Rightarrow> offsetActual n)
                      (nodosC s))
        \<and> pasoIndexC (eventoC h e s) = Suc (pasoIndexC s))
   \<or> (\<exists>now rnd. e = GenerarRelojes now rnd)"
proof (cases e)
  case PasoC
  with ch have "map offsetActual (nodosC (avanzarPasoC s)) \<noteq> map offsetActual (nodosC s)"
    by simp
  from avanzarPasoC_offsets [OF this] show ?thesis using PasoC by simp
next
  case TemporizadorC
  with ch have "map offsetActual (nodosC (avanzarPasoC s)) \<noteq> map offsetActual (nodosC s)"
    and e: "eventoC h e s = avanzarPasoC s"
    by (auto simp: temporizadorC_def split: if_splits)
  from avanzarPasoC_offsets [OF this(1)] show ?thesis using TemporizadorC e by simp
qed (use ch in \<open>auto simp: comp_def split: if_splits\<close>)

text \<open>
  Claim C6, as amended. The leader changes only when a step of the controller applies
  one action that carries a \<open>leaderId\<close> (it becomes that value and the cursor advances
  by one), or when it is cleared: by a click that fails the node that is the current
  leader, by regenerating the nodes or by the reset button. Reviving a node and
  failing another node leave it as it is. The offsets of the clocks change only when
  a step applies one action with \<open>ajustes\<close> (each named node takes its new offset and
  the cursor advances by one), or when the clocks are regenerated.
\<close>

theorem leader_and_offsets_change_only_by_action_or_reset:
  "(leaderIdE (eventoE e s) \<noteq> leaderIdE s \<longrightarrow>
     ((e = Paso \<or> e = Temporizador)
        \<and> pasoIndexE s < length (accionesPaso s)
        \<and> leaderId (accionesPaso s ! pasoIndexE s) = Some (leaderIdE (eventoE e s))
        \<and> pasoIndexE (eventoE e s) = Suc (pasoIndexE s))
     \<or> (\<exists>i. e = ClickNodo i \<and> \<not> modoIniciador s \<and> leaderIdE s = Some i
            \<and> \<not> (\<exists>n. find (\<lambda>n. nid n = i) (nodosE s) = Some n \<and> failed n)
            \<and> leaderIdE (eventoE e s) = None)
     \<or> (((\<exists>ids. e = GenerarNodos ids) \<or> e = Reiniciar) \<and> leaderIdE (eventoE e s) = None))
   \<and> (map offsetActual (nodosC (eventoC horaStr e' c)) \<noteq> map offsetActual (nodosC c) \<longrightarrow>
     ((e' = PasoC \<or> e' = TemporizadorC)
        \<and> pasoIndexC c < length (accionesC c)
        \<and> (\<exists>aj. ajustes (accionesC c ! pasoIndexC c) = Some aj
              \<and> map offsetActual (nodosC (eventoC horaStr e' c))
                  = map (\<lambda>n. case map_of aj (cid n) of Some v \<Rightarrow> v | None \<Rightarrow> offsetActual n)
                      (nodosC c))
        \<and> pasoIndexC (eventoC horaStr e' c) = Suc (pasoIndexC c))
     \<or> (\<exists>now rnd. e' = GenerarRelojes now rnd))"
  using leader_eventoE [of e s] offsets_eventoC [of horaStr e' c] by blast


theorem leader_and_offsets_change_only_by_action_or_reset_witness:
  "leaderIdE (correrE (take 11 primeraEleccion) estadoInicialE) = None
   \<and> leaderIdE (eventoE Paso (correrE (take 11 primeraEleccion) estadoInicialE)) = Some 81
   \<and> leaderId (accionesPaso (correrE (take 11 primeraEleccion) estadoInicialE)
                 ! pasoIndexE (correrE (take 11 primeraEleccion) estadoInicialE))
       = Some (Some 81)
   \<and> map offsetActual (nodosC (correrC (\<lambda>t. []) sincronizacionCristian estadoInicialC))
       = [0, 0, 0, 0, 0]
   \<and> map offsetActual (nodosC (eventoC (\<lambda>t. []) PasoC
         (correrC (\<lambda>t. []) sincronizacionCristian estadoInicialC)))
       = [40, 0, 0, 0, 0]
   \<and> pasoIndexC (eventoC (\<lambda>t. []) PasoC
         (correrC (\<lambda>t. []) sincronizacionCristian estadoInicialC))
       = Suc (pasoIndexC (correrC (\<lambda>t. []) sincronizacionCristian estadoInicialC))"
proof -
  have a: "leaderIdE (correrE (take 11 primeraEleccion) estadoInicialE) = None"
    by code_simp
  have b: "leaderIdE (eventoE Paso (correrE (take 11 primeraEleccion) estadoInicialE)) = Some 81"
    by code_simp
  have c: "map offsetActual (nodosC (correrC (\<lambda>t. []) sincronizacionCristian estadoInicialC))
       = [0, 0, 0, 0, 0]"
    by code_simp
  have d: "map offsetActual (nodosC (eventoC (\<lambda>t. []) PasoC
         (correrC (\<lambda>t. []) sincronizacionCristian estadoInicialC)))
       = [40, 0, 0, 0, 0]"
    by code_simp
  from leader_and_offsets_change_only_by_action_or_reset
         [of Paso "correrE (take 11 primeraEleccion) estadoInicialE" "\<lambda>t. []" PasoC
             "correrC (\<lambda>t. []) sincronizacionCristian estadoInicialC"]
  show ?thesis unfolding a b c d by simp
qed

text \<open>
  Claim C6 as stated does not hold: after the first election of the scenario the
  leader is 81; the click that fails node 81 clears the leader while the cursor stays
  where it is (no action is applied).
\<close>

theorem failing_leader_clears_leader:
  "leaderIdE (correrE primeraEleccion estadoInicialE) = Some 81
   \<and> leaderIdE (eventoE (ClickNodo 81) (correrE primeraEleccion estadoInicialE)) = None
   \<and> pasoIndexE (eventoE (ClickNodo 81) (correrE primeraEleccion estadoInicialE))
       = pasoIndexE (correrE primeraEleccion estadoInicialE)"
  by code_simp

subsection \<open>Stepping the election controller with a fresh callback\<close>

lemma renderE_fresco: "accionesPaso s = accionesE s \<Longrightarrow> renderE s = s"
  by (simp add: renderE_def)

lemma aplicarE_acciones [simp]:
  "accionesE (aplicarE a s) = accionesE s" "accionesPaso (aplicarE a s) = accionesPaso s"
  by (simp_all add: aplicarE_def Let_def split: option.splits)

lemma aplicarE_cursor: "aplicarE a (s\<lparr>pasoIndexE := j\<rparr>) = (aplicarE a s)\<lparr>pasoIndexE := j\<rparr>"
  by (simp add: aplicarE_def Let_def split: option.splits)

lemma aplicarE_playing: "aplicarE a (s\<lparr>isPlayingE := b\<rparr>) = (aplicarE a s)\<lparr>isPlayingE := b\<rparr>"
  by (simp add: aplicarE_def Let_def split: option.splits)

lemma foldl_aplicarE_cursor:
  "foldl (\<lambda>st a. aplicarE a st) (s\<lparr>pasoIndexE := j\<rparr>) as
     = (foldl (\<lambda>st a. aplicarE a st) s as)\<lparr>pasoIndexE := j\<rparr>"
  by (induction as arbitrary: s) (simp_all add: aplicarE_cursor)

lemma foldl_aplicarE_playing:
  "foldl (\<lambda>st a. aplicarE a st) (s\<lparr>isPlayingE := b\<rparr>) as
     = (foldl (\<lambda>st a. aplicarE a st) s as)\<lparr>isPlayingE := b\<rparr>"
  by (induction as arbitrary: s) (simp_all add: aplicarE_playing)

lemma foldl_aplicarE_acciones [simp]:
  "accionesE (foldl (\<lambda>st a. aplicarE a st) s as) = accionesE s"
  "accionesPaso (foldl (\<lambda>st a. aplicarE a st) s as) = accionesPaso s"
  "pasoIndexE (foldl (\<lambda>st a. aplicarE a st) s as) = pasoIndexE s"
  by (induction as arbitrary: s) simp_all

lemma avanzarPaso_dentro:
  "pasoIndexE s < length (accionesPaso s) \<Longrightarrow>
   avanzarPaso s = (aplicarE (accionesPaso s ! pasoIndexE s) s)\<lparr>pasoIndexE := Suc (pasoIndexE s)\<rparr>"
  by (simp add: avanzarPaso_def Let_def)

lemma avanzarPaso_fin:
  "length (accionesPaso s) \<le> pasoIndexE s \<Longrightarrow> avanzarPaso s = s\<lparr>isPlayingE := False\<rparr>"
  by (simp add: avanzarPaso_def Let_def)

lemma take_Suc_drop:
  "i < length xs \<Longrightarrow> take (Suc k) (drop i xs) = xs ! i # take k (drop (Suc i) xs)"
  by (simp add: Cons_nth_drop_Suc [symmetric])

text \<open>
  With the callback holding the current sequence, \<open>k\<close> single steps from cursor \<open>i\<close>
  apply the actions \<open>i, \<dots>, i + k - 1\<close> in this order, each once, and leave the cursor
  at \<open>i + k\<close>.
\<close>

lemma pasos_en_orden_E:
  assumes "accionesPaso s = accionesE s" and "pasoIndexE s + k \<le> length (accionesE s)"
  shows "correrE (replicate k Paso) s
           = (foldl (\<lambda>st a. aplicarE a st) s (take k (drop (pasoIndexE s) (accionesE s))))
               \<lparr>pasoIndexE := pasoIndexE s + k\<rparr>"
  using assms
proof (induction k arbitrary: s)
  case 0
  then show ?case by (simp add: correrE_def)
next
  case (Suc k)
  let ?i = "pasoIndexE s"
  let ?a = "accionesE s ! ?i"
  let ?s1 = "(aplicarE ?a s)\<lparr>pasoIndexE := Suc ?i\<rparr>"
  from Suc.prems have lt: "?i < length (accionesE s)" by simp
  then have ne: "accionesE s \<noteq> []" by auto
  have ev: "eventoE Paso s = ?s1"
    using Suc.prems(1) lt ne
    by (simp add: eventoE_def handlePaso_def avanzarPaso_dentro renderE_fresco)
  have fresh: "accionesPaso ?s1 = accionesE ?s1" using Suc.prems(1) by simp
  have bound: "pasoIndexE ?s1 + k \<le> length (accionesE ?s1)" using Suc.prems(2) by simp
  have "correrE (replicate (Suc k) Paso) s = correrE (replicate k Paso) ?s1"
    by (simp add: correrE_def ev)
  also have "\<dots> = (foldl (\<lambda>st a. aplicarE a st) ?s1
                      (take k (drop (pasoIndexE ?s1) (accionesE ?s1))))
                    \<lparr>pasoIndexE := pasoIndexE ?s1 + k\<rparr>"
    by (rule Suc.IH [OF fresh bound])
  also have "\<dots> = (foldl (\<lambda>st a. aplicarE a st) (aplicarE ?a s)
                      (take k (drop (Suc ?i) (accionesE s))))
                    \<lparr>pasoIndexE := ?i + Suc k\<rparr>"
    by (simp add: foldl_aplicarE_cursor)
  also have "\<dots> = (foldl (\<lambda>st a. aplicarE a st) s (take (Suc k) (drop ?i (accionesE s))))
                    \<lparr>pasoIndexE := ?i + Suc k\<rparr>"
    by (simp add: take_Suc_drop [OF lt])
  finally show ?case .
qed

text \<open>At the end of the sequence a further step only stops the playback.\<close>

lemma paso_al_final_E:
  assumes "accionesPaso s = accionesE s" and "pasoIndexE s = length (accionesE s)"
    and "accionesE s \<noteq> []"
  shows "eventoE Paso s = s\<lparr>isPlayingE := False\<rparr>"
  using assms by (simp add: eventoE_def handlePaso_def avanzarPaso_fin renderE_def)

text \<open>
  Pausing and resuming: whatever way steps, timer ticks, Play and Pause follow one
  another, the state is the fold of a prefix of the sequence in order (the playing
  flag apart), and the cursor is the length of that prefix.
\<close>

lemma reproduccion_prefijo_E:
  assumes "accionesPaso s = accionesE s" and "pasoIndexE s \<le> length (accionesE s)"
    and "accionesE s \<noteq> []" and "set es \<subseteq> {Paso, Temporizador, Play, Pause}"
  shows "\<exists>k. pasoIndexE s + k \<le> length (accionesE s)
             \<and> (correrE es s)\<lparr>isPlayingE := b\<rparr>
                 = (foldl (\<lambda>st a. aplicarE a st) s (take k (drop (pasoIndexE s) (accionesE s))))
                     \<lparr>pasoIndexE := pasoIndexE s + k, isPlayingE := b\<rparr>"
  using assms
proof (induction es arbitrary: s)
  case Nil
  have "pasoIndexE s + 0 \<le> length (accionesE s)
        \<and> (correrE [] s)\<lparr>isPlayingE := b\<rparr>
            = (foldl (\<lambda>st a. aplicarE a st) s (take 0 (drop (pasoIndexE s) (accionesE s))))
                \<lparr>pasoIndexE := pasoIndexE s + 0, isPlayingE := b\<rparr>"
    using Nil.prems by (simp add: correrE_def)
  then show ?case by blast
next
  case (Cons e es)
  let ?i = "pasoIndexE s"
  let ?L = "length (accionesE s)"
  from Cons.prems have e: "e \<in> {Paso, Temporizador, Play, Pause}"
    and es: "set es \<subseteq> {Paso, Temporizador, Play, Pause}" by auto
  have run: "correrE (e # es) s = correrE es (eventoE e s)" by (simp add: correrE_def)
  consider (quieto) x where "eventoE e s = s\<lparr>isPlayingE := x\<rparr>"
    | (avanza) "?i < ?L"
        "eventoE e s = (aplicarE (accionesE s ! ?i) s)\<lparr>pasoIndexE := Suc ?i\<rparr>"
  proof -
    have fresh: "renderE st = st" if "accionesPaso st = accionesE st" for st
      using that by (rule renderE_fresco)
    from e show ?thesis
    proof (elim insertE emptyE)
      assume "e = Paso"
      show ?thesis
      proof (cases "?i < ?L")
        case True
        then have "eventoE e s = (aplicarE (accionesE s ! ?i) s)\<lparr>pasoIndexE := Suc ?i\<rparr>"
          using \<open>e = Paso\<close> Cons.prems(1,3)
          by (simp add: eventoE_def handlePaso_def avanzarPaso_dentro renderE_fresco)
        with True show ?thesis by (rule avanza)
      next
        case False
        then have "eventoE e s = s\<lparr>isPlayingE := False\<rparr>"
          using \<open>e = Paso\<close> Cons.prems(1,3)
          by (simp add: eventoE_def handlePaso_def avanzarPaso_fin renderE_def)
        then show ?thesis by (rule quieto)
      qed
    next
      assume "e = Temporizador"
      show ?thesis
      proof (cases "isPlayingE s \<and> ?i < ?L")
        case True
        then have "eventoE e s = (aplicarE (accionesE s ! ?i) s)\<lparr>pasoIndexE := Suc ?i\<rparr>"
          using \<open>e = Temporizador\<close> Cons.prems(1,3)
          by (simp add: eventoE_def temporizadorE_def avanzarPaso_dentro renderE_fresco)
        with True show ?thesis by (intro avanza) simp_all
      next
        case False
        then have "eventoE e s = s\<lparr>isPlayingE := isPlayingE s\<rparr>"
          using \<open>e = Temporizador\<close> Cons.prems(1,3)
          by (auto simp: eventoE_def temporizadorE_def renderE_def)
        then show ?thesis by (rule quieto)
      qed
    next
      assume "e = Play"
      then have "eventoE e s = s\<lparr>isPlayingE := True\<rparr>"
        using Cons.prems(1,3) by (simp add: eventoE_def handlePlay_def renderE_def)
      then show ?thesis by (rule quieto)
    next
      assume "e = Pause"
      then have "eventoE e s = s\<lparr>isPlayingE := False\<rparr>"
        using Cons.prems(1,3) by (simp add: eventoE_def handlePause_def renderE_def)
      then show ?thesis by (rule quieto)
    qed
  qed
  then show ?case
  proof cases
    case quieto
    let ?s1 = "s\<lparr>isPlayingE := x\<rparr>"
    have "\<exists>k. pasoIndexE ?s1 + k \<le> length (accionesE ?s1)
             \<and> (correrE es ?s1)\<lparr>isPlayingE := b\<rparr>
                 = (foldl (\<lambda>st a. aplicarE a st) ?s1
                      (take k (drop (pasoIndexE ?s1) (accionesE ?s1))))
                     \<lparr>pasoIndexE := pasoIndexE ?s1 + k, isPlayingE := b\<rparr>"
      using Cons.prems(1,2,3) es by (intro Cons.IH) simp_all
    then obtain k where k: "?i + k \<le> ?L"
      and eq: "(correrE es ?s1)\<lparr>isPlayingE := b\<rparr>
                 = (foldl (\<lambda>st a. aplicarE a st) ?s1 (take k (drop ?i (accionesE s))))
                     \<lparr>pasoIndexE := ?i + k, isPlayingE := b\<rparr>"
      by auto
    have "(correrE (e # es) s)\<lparr>isPlayingE := b\<rparr>
            = (foldl (\<lambda>st a. aplicarE a st) s (take k (drop ?i (accionesE s))))
                \<lparr>pasoIndexE := ?i + k, isPlayingE := b\<rparr>"
      unfolding run quieto eq by (simp add: foldl_aplicarE_playing)
    with k show ?thesis by blast
  next
    case avanza
    let ?s1 = "(aplicarE (accionesE s ! ?i) s)\<lparr>pasoIndexE := Suc ?i\<rparr>"
    have "\<exists>k. pasoIndexE ?s1 + k \<le> length (accionesE ?s1)
             \<and> (correrE es ?s1)\<lparr>isPlayingE := b\<rparr>
                 = (foldl (\<lambda>st a. aplicarE a st) ?s1
                      (take k (drop (pasoIndexE ?s1) (accionesE ?s1))))
                     \<lparr>pasoIndexE := pasoIndexE ?s1 + k, isPlayingE := b\<rparr>"
      using Cons.prems(1,3) avanza(1) es by (intro Cons.IH) simp_all
    then obtain k where k: "Suc ?i + k \<le> ?L"
      and eq: "(correrE es ?s1)\<lparr>isPlayingE := b\<rparr>
                 = (foldl (\<lambda>st a. aplicarE a st) ?s1 (take k (drop (Suc ?i) (accionesE s))))
                     \<lparr>pasoIndexE := Suc ?i + k, isPlayingE := b\<rparr>"
      by auto
    have "(correrE (e # es) s)\<lparr>isPlayingE := b\<rparr>
            = (foldl (\<lambda>st a. aplicarE a st) s (take (Suc k) (drop ?i (accionesE s))))
                \<lparr>pasoIndexE := ?i + Suc k, isPlayingE := b\<rparr>"
      unfolding run avanza(2) eq
      by (simp add: foldl_aplicarE_cursor take_Suc_drop [OF avanza(1)])
    moreover have "?i + Suc k \<le> ?L" using k by simp
    ultimately show ?thesis by blast
  qed
qed

text \<open>
  Claim C5 on the election controller, at the scenario of the specification followed
  by a second election (node 81 failed, initiator 12): the second sequence has six
  actions like the first, so the memoised \<open>avanzarPaso\<close> still holds the first one.
  Six single steps move the cursor from 0 to 6, but the actions they apply are those
  of the first sequence: the log shows its six descriptions, not those of the
  compiled sequence, and the leader ends as the failed node 81 although the compiled
  sequence ends with \<open>leaderId = 55\<close>.
\<close>

theorem election_replay_stale_sequence:
  "(let s = correrE (primeraEleccion @ segundaEleccion) estadoInicialE
    in map failed (nodosE s) = [False, False, False, True]
     \<and> accionesE s = simularBully (nodosE s) 12
     \<and> map leaderId (accionesE s) = [None, None, None, None, None, Some (Some 55)]
     \<and> pasoIndexE s = 6
     \<and> leaderIdE s = Some 81
     \<and> drop 14 (logsE s) = lineasDe 14 (simularBully (nodosDe [12, 55, 30, 81]) 30)
     \<and> drop 14 (logsE s) \<noteq> lineasDe 14 (accionesE s))"
  by code_simp

subsection \<open>Stepping the clock controller\<close>

lemma aplicarC_acciones [simp]:
  "accionesC (aplicarC a s) = accionesC s"
  by (cases "ajustes a"; cases "rttValues a"; cases "chighlightIds a";
      simp add: aplicarC_def Let_def presente_def)+

lemma aplicarC_cursor: "aplicarC a (s\<lparr>pasoIndexC := j\<rparr>) = (aplicarC a s)\<lparr>pasoIndexC := j\<rparr>"
  by (cases "ajustes a"; cases "rttValues a"; cases "chighlightIds a";
      simp add: aplicarC_def Let_def presente_def)

lemma aplicarC_playing: "aplicarC a (s\<lparr>isPlayingC := b\<rparr>) = (aplicarC a s)\<lparr>isPlayingC := b\<rparr>"
  by (cases "ajustes a"; cases "rttValues a"; cases "chighlightIds a";
      simp add: aplicarC_def Let_def presente_def)

lemma foldl_aplicarC_cursor:
  "foldl (\<lambda>st a. aplicarC a st) (s\<lparr>pasoIndexC := j\<rparr>) as
     = (foldl (\<lambda>st a. aplicarC a st) s as)\<lparr>pasoIndexC := j\<rparr>"
  by (induction as arbitrary: s) (simp_all add: aplicarC_cursor)

lemma foldl_aplicarC_playing:
  "foldl (\<lambda>st a. aplicarC a st) (s\<lparr>isPlayingC := b\<rparr>) as
     = (foldl (\<lambda>st a. aplicarC a st) s as)\<lparr>isPlayingC := b\<rparr>"
  by (induction as arbitrary: s) (simp_all add: aplicarC_playing)

lemma avanzarPasoC_dentro:
  "pasoIndexC s < length (accionesC s) \<Longrightarrow>
   avanzarPasoC s = (aplicarC (accionesC s ! pasoIndexC s) s)\<lparr>pasoIndexC := Suc (pasoIndexC s)\<rparr>"
  by (simp add: avanzarPasoC_def)

lemma avanzarPasoC_fin:
  "length (accionesC s) \<le> pasoIndexC s \<Longrightarrow> avanzarPasoC s = s\<lparr>isPlayingC := False\<rparr>"
  by (simp add: avanzarPasoC_def)

text \<open>
  \<open>k\<close> single steps of the clock controller from cursor \<open>i\<close> apply the actions
  \<open>i, \<dots>, i + k - 1\<close> in this order, each once, and leave the cursor at \<open>i + k\<close>; at the
  end a further step only stops the playback.
\<close>

lemma pasos_en_orden_C:
  assumes "pasoIndexC s + k \<le> length (accionesC s)"
  shows "correrC h (replicate k PasoC) s
           = (foldl (\<lambda>st a. aplicarC a st) s (take k (drop (pasoIndexC s) (accionesC s))))
               \<lparr>pasoIndexC := pasoIndexC s + k\<rparr>"
  using assms
proof (induction k arbitrary: s)
  case 0
  then show ?case by (simp add: correrC_def)
next
  case (Suc k)
  let ?i = "pasoIndexC s"
  let ?a = "accionesC s ! ?i"
  let ?s1 = "(aplicarC ?a s)\<lparr>pasoIndexC := Suc ?i\<rparr>"
  from Suc.prems have lt: "?i < length (accionesC s)" by simp
  have ev: "eventoC h PasoC s = ?s1" using lt by (simp add: avanzarPasoC_dentro)
  have bound: "pasoIndexC ?s1 + k \<le> length (accionesC ?s1)" using Suc.prems by simp
  have "correrC h (replicate (Suc k) PasoC) s = correrC h (replicate k PasoC) ?s1"
    by (simp add: correrC_def ev del: eventoC.simps)
  also have "\<dots> = (foldl (\<lambda>st a. aplicarC a st) ?s1
                      (take k (drop (pasoIndexC ?s1) (accionesC ?s1))))
                    \<lparr>pasoIndexC := pasoIndexC ?s1 + k\<rparr>"
    by (rule Suc.IH [OF bound])
  also have "\<dots> = (foldl (\<lambda>st a. aplicarC a st) (aplicarC ?a s)
                      (take k (drop (Suc ?i) (accionesC s))))
                    \<lparr>pasoIndexC := ?i + Suc k\<rparr>"
    by (simp add: foldl_aplicarC_cursor)
  also have "\<dots> = (foldl (\<lambda>st a. aplicarC a st) s (take (Suc k) (drop ?i (accionesC s))))
                    \<lparr>pasoIndexC := ?i + Suc k\<rparr>"
    by (simp add: take_Suc_drop [OF lt])
  finally show ?case .
qed

lemma paso_al_final_C:
  "pasoIndexC s = length (accionesC s) \<Longrightarrow> eventoC h PasoC s = s\<lparr>isPlayingC := False\<rparr>"
  by (simp add: avanzarPasoC_fin)

lemma reproduccion_prefijo_C:
  assumes "pasoIndexC s \<le> length (accionesC s)"
    and "set es \<subseteq> {PasoC, TemporizadorC, PlayC, PauseC}"
  shows "\<exists>k. pasoIndexC s + k \<le> length (accionesC s)
             \<and> (correrC h es s)\<lparr>isPlayingC := b\<rparr>
                 = (foldl (\<lambda>st a. aplicarC a st) s (take k (drop (pasoIndexC s) (accionesC s))))
                     \<lparr>pasoIndexC := pasoIndexC s + k, isPlayingC := b\<rparr>"
  using assms
proof (induction es arbitrary: s)
  case Nil
  have "pasoIndexC s + 0 \<le> length (accionesC s)
        \<and> (correrC h [] s)\<lparr>isPlayingC := b\<rparr>
            = (foldl (\<lambda>st a. aplicarC a st) s (take 0 (drop (pasoIndexC s) (accionesC s))))
                \<lparr>pasoIndexC := pasoIndexC s + 0, isPlayingC := b\<rparr>"
    using Nil.prems by (simp add: correrC_def)
  then show ?case by blast
next
  case (Cons e es)
  let ?i = "pasoIndexC s"
  let ?L = "length (accionesC s)"
  from Cons.prems have e: "e \<in> {PasoC, TemporizadorC, PlayC, PauseC}"
    and es: "set es \<subseteq> {PasoC, TemporizadorC, PlayC, PauseC}" by auto
  have run: "correrC h (e # es) s = correrC h es (eventoC h e s)" by (simp add: correrC_def)
  consider (quieto) x where "eventoC h e s = s\<lparr>isPlayingC := x\<rparr>"
    | (avanza) "?i < ?L"
        "eventoC h e s = (aplicarC (accionesC s ! ?i) s)\<lparr>pasoIndexC := Suc ?i\<rparr>"
  proof -
    from e show ?thesis
    proof (elim insertE emptyE)
      assume "e = PasoC"
      show ?thesis
      proof (cases "?i < ?L")
        case True
        then have "eventoC h e s = (aplicarC (accionesC s ! ?i) s)\<lparr>pasoIndexC := Suc ?i\<rparr>"
          using \<open>e = PasoC\<close> by (simp add: avanzarPasoC_dentro)
        with True show ?thesis by (rule avanza)
      next
        case False
        then have "eventoC h e s = s\<lparr>isPlayingC := False\<rparr>"
          using \<open>e = PasoC\<close> by (simp add: avanzarPasoC_fin)
        then show ?thesis by (rule quieto)
      qed
    next
      assume "e = TemporizadorC"
      show ?thesis
      proof (cases "isPlayingC s \<and> ?i < ?L")
        case True
        then have "eventoC h e s = (aplicarC (accionesC s ! ?i) s)\<lparr>pasoIndexC := Suc ?i\<rparr>"
          using \<open>e = TemporizadorC\<close> by (simp add: temporizadorC_def avanzarPasoC_dentro)
        with True show ?thesis by (intro avanza) simp_all
      next
        case False
        then have "eventoC h e s = s\<lparr>isPlayingC := isPlayingC s\<rparr>"
          using \<open>e = TemporizadorC\<close> by (auto simp: temporizadorC_def)
        then show ?thesis by (rule quieto)
      qed
    next
      assume "e = PlayC"
      then have "eventoC h e s = s\<lparr>isPlayingC := True\<rparr>" by simp
      then show ?thesis by (rule quieto)
    next
      assume "e = PauseC"
      then have "eventoC h e s = s\<lparr>isPlayingC := False\<rparr>" by simp
      then show ?thesis by (rule quieto)
    qed
  qed
  then show ?case
  proof cases
    case quieto
    let ?s1 = "s\<lparr>isPlayingC := x\<rparr>"
    have "\<exists>k. pasoIndexC ?s1 + k \<le> length (accionesC ?s1)
             \<and> (correrC h es ?s1)\<lparr>isPlayingC := b\<rparr>
                 = (foldl (\<lambda>st a. aplicarC a st) ?s1
                      (take k (drop (pasoIndexC ?s1) (accionesC ?s1))))
                     \<lparr>pasoIndexC := pasoIndexC ?s1 + k, isPlayingC := b\<rparr>"
      using Cons.prems(1) es by (intro Cons.IH) simp_all
    then obtain k where k: "?i + k \<le> ?L"
      and eq: "(correrC h es ?s1)\<lparr>isPlayingC := b\<rparr>
                 = (foldl (\<lambda>st a. aplicarC a st) ?s1 (take k (drop ?i (accionesC s))))
                     \<lparr>pasoIndexC := ?i + k, isPlayingC := b\<rparr>"
      by auto
    have "(correrC h (e # es) s)\<lparr>isPlayingC := b\<rparr>
            = (foldl (\<lambda>st a. aplicarC a st) s (take k (drop ?i (accionesC s))))
                \<lparr>pasoIndexC := ?i + k, isPlayingC := b\<rparr>"
      unfolding run quieto eq by (simp add: foldl_aplicarC_playing)
    with k show ?thesis by blast
  next
    case avanza
    let ?s1 = "(aplicarC (accionesC s ! ?i) s)\<lparr>pasoIndexC := Suc ?i\<rparr>"
    have "\<exists>k. pasoIndexC ?s1 + k \<le> length (accionesC ?s1)
             \<and> (correrC h es ?s1)\<lparr>isPlayingC := b\<rparr>
                 = (foldl (\<lambda>st a. aplicarC a st) ?s1
                      (take k (drop (pasoIndexC ?s1) (accionesC ?s1))))
                     \<lparr>pasoIndexC := pasoIndexC ?s1 + k, isPlayingC := b\<rparr>"
      using avanza(1) es by (intro Cons.IH) simp_all
    then obtain k where k: "Suc ?i + k \<le> ?L"
      and eq: "(correrC h es ?s1)\<lparr>isPlayingC := b\<rparr>
                 = (foldl (\<lambda>st a. aplicarC a st) ?s1 (take k (drop (Suc ?i) (accionesC s))))
                     \<lparr>pasoIndexC := Suc ?i + k, isPlayingC := b\<rparr>"
      by auto
    have "(correrC h (e # es) s)\<lparr>isPlayingC := b\<rparr>
            = (foldl (\<lambda>st a. aplicarC a st) s (take (Suc k) (drop ?i (accionesC s))))
                \<lparr>pasoIndexC := ?i + Suc k, isPlayingC := b\<rparr>"
      unfolding run avanza(2) eq
      by (simp add: foldl_aplicarC_cursor take_Suc_drop [OF avanza(1)])
    moreover have "?i + Suc k \<le> ?L" using k by simp
    ultimately show ?thesis by blast
  qed
qed


subsection \<open>Play and step without a sequence\<close>

text \<open>
  The election simulator guards both requests: one log line, nothing else changes.
  The clock simulator has no guard: Play sets \<open>isPlaying\<close>, the step clears it, and
  neither writes a log line.
\<close>

lemma sin_secuencia_E:
  assumes "accionesE s = []" and "accionesPaso s = []"
  shows "eventoE Play s = s\<lparr>logsE := pushLog sinSecuencia (logsE s)\<rparr>"
    and "eventoE Paso s = s\<lparr>logsE := pushLog sinSecuencia (logsE s)\<rparr>"
  using assms by (simp_all add: eventoE_def handlePlay_def handlePaso_def renderE_def)

lemma sin_secuencia_C:
  assumes "accionesC s = []"
  shows "eventoC h PlayC s = s\<lparr>isPlayingC := True\<rparr>"
    and "eventoC h PasoC s = s\<lparr>isPlayingC := False\<rparr>"
  using assms by (simp_all add: avanzarPasoC_def)

text \<open>
  Claim C8 on the clock controller, right after the clocks are generated (no sequence
  compiled yet): Play starts playing and the step stops it again, and neither writes
  a log line.
\<close>

theorem clock_play_without_sequence:
  "(let s0 = eventoC (\<lambda>t. []) (GenerarRelojes 1000 (\<lambda>k. 1 / 2)) estadoInicialC;
        s1 = eventoC (\<lambda>t. []) PlayC s0;
        s2 = eventoC (\<lambda>t. []) PasoC s1
    in accionesC s0 = [] \<and> length (nodosC s0) = 5 \<and> isPlayingC s0 = False
     \<and> isPlayingC s1 = True \<and> logsC s1 = logsC s0
     \<and> isPlayingC s2 = False \<and> logsC s2 = logsC s0)"
  by code_simp

end
